theory Spec2Isabelle
  imports Main "HOL-Library.Word"
begin

section \<open>The server controller of minecraft-server-hibernation (lib/servctrl/servctrl.go)\<close>

text \<open>
  The package keeps its state in globals (\<^verbatim>\<open>Stats.Status\<close>, \<^verbatim>\<open>Stats.StopMSRequests\<close>),
  reads its settings from \<^verbatim>\<open>config.ConfigRuntime\<close> and acts on the outside through
  \<^verbatim>\<open>Execute\<close>, \<^verbatim>\<open>countPlayerSafe\<close>, \<^verbatim>\<open>logger.Logln\<close>, \<^verbatim>\<open>time.Sleep\<close>,
  \<^verbatim>\<open>time.AfterFunc\<close>, \<^verbatim>\<open>go\<close> and \<^verbatim>\<open>Process.Kill\<close>.  The embedding passes the globals
  explicitly in a record, appends every outside action to a trace in program order, and
  takes what the outside answers (player count, delivery errors) as an input record.

  Time is counted in seconds, the unit of every sleep in the file.  A function of the
  file is modelled as one goroutine running it.  What the goroutines running at the
  same time do to the two globals reaches it as an input: what they do to
  \<^verbatim>\<open>Stats.Status\<close> is the outside signal of the world, which acts while this code sleeps;
  what they add to \<^verbatim>\<open>Stats.StopMSRequests\<close> between two accesses of \<^verbatim>\<open>StopMS\<close> to it is part
  of the answers.  \<^verbatim>\<open>StartMS\<close> is left out: it only forwards to \<^verbatim>\<open>cmdStart\<close>, which is not in
  this file.
\<close>

subsection \<open>Configuration, outside answers, observable actions\<close>

text \<open>The fields of \<^verbatim>\<open>config.ConfigRuntime\<close> that servctrl.go reads (Go \<^verbatim>\<open>int\<close> and \<^verbatim>\<open>string\<close>).\<close>

record config =
  StopServer :: string
  StopServerAllowKill :: int
  TimeBeforeStoppingEmptyServer :: int

text \<open>
  What the collaborators outside this file return during one call:
  \<^verbatim>\<open>countPlayerSafe()\<close> returns \<open>(playerCount, isFromServer)\<close>; \<^verbatim>\<open>Execute\<close> returns an error
  (\<open>None\<close> is Go's \<^verbatim>\<open>nil\<close>, \<open>Some m\<close> an error whose \<^verbatim>\<open>Error()\<close> text is \<open>m\<close>), once for the
  stop command and once for \<^verbatim>\<open>save-all\<close>; \<^verbatim>\<open>Process.Kill()\<close> returns an error.

  And what the goroutines running at the same time (other \<^verbatim>\<open>StopMSRequest\<close> and \<^verbatim>\<open>StopMS\<close>
  calls) add to \<^verbatim>\<open>Stats.StopMSRequests\<close> while a \<^verbatim>\<open>StopMS(true)\<close> call is under way:
  \<open>othersLine53\<close> is the sum of their atomic additions that land after the call's own
  decrement (line 42) and before its load (line 53), \<open>othersLine54\<close> the sum of those
  that land after that load and before the plain read of line 54.  Both are 0 when no
  other goroutine touches the counter meanwhile.
\<close>

record answers =
  playerCount :: int
  isFromServer :: bool
  errExec :: "string option"
  errSaveAll :: "string option"
  errKill :: "string option"
  othersLine53 :: "32 word"
  othersLine54 :: "32 word"

text \<open>An argument of \<^verbatim>\<open>logger.Logln\<close>, kept unformatted.\<close>

datatype logarg = LInt int | LStr string | LBool bool | LErr string

datatype event =
    Sleep nat
  | AtomicAddInt32 "32 word"
  | AtomicLoadInt32
  | CountPlayerSafe
  | Logln "logarg list"
  | Execute string string
  | GoKillMSifOnlineAfterTimeout
  | AfterFunc "64 word"
  | ProcessKill

text \<open>
  The globals and the rest of the world.  \<open>Status\<close> is the Go string \<^verbatim>\<open>Stats.Status\<close>;
  \<open>StopMSRequests\<close> is the \<^verbatim>\<open>int32\<close> counter, read as signed with \<open>sint\<close>.  servctrl.go never
  writes \<open>Status\<close>: other goroutines do, while this code sleeps.  \<open>signal\<close> is that outside
  signal: the value \<open>Status\<close> has after each coming second, and no change once the list is
  used up.  \<open>timers\<close> counts the \<^verbatim>\<open>time.AfterFunc\<close> callbacks scheduled and not yet fired,
  \<open>watchdogs\<close> the \<^verbatim>\<open>go killMSifOnlineAfterTimeout()\<close> goroutines started and not yet run.
\<close>

record world =
  Status :: string
  StopMSRequests :: "32 word"
  signal :: "string list"
  timers :: nat
  watchdogs :: nat
  trace :: "event list"

definition emit :: "event \<Rightarrow> world \<Rightarrow> world" where
  "emit e w = w\<lparr>trace := trace w @ [e]\<rparr>"

text \<open>One second passes: the outside signal may set \<open>Status\<close>.\<close>

definition tick :: "world \<Rightarrow> world" where
  "tick w = (case signal w of [] \<Rightarrow> w | s # rest \<Rightarrow> w\<lparr>Status := s, signal := rest\<rparr>)"

text \<open>\<^verbatim>\<open>time.Sleep(n * time.Second)\<close>.\<close>

definition time_Sleep :: "nat \<Rightarrow> world \<Rightarrow> world" where
  "time_Sleep n w = emit (Sleep n) ((tick ^^ n) w)"

text \<open>\<^verbatim>\<open>atomic.AddInt32(&Stats.StopMSRequests, d)\<close>: two's complement, wraps.\<close>

definition atomic_AddInt32 :: "32 word \<Rightarrow> world \<Rightarrow> world" where
  "atomic_AddInt32 d w = emit (AtomicAddInt32 d) (w\<lparr>StopMSRequests := StopMSRequests w + d\<rparr>)"

text \<open>
  The additions of other goroutines to the counter: they change the global and are no
  action of the goroutine modelled, so they leave no event in its trace.
\<close>

definition others_add :: "32 word \<Rightarrow> world \<Rightarrow> world" where
  "others_add d w = w\<lparr>StopMSRequests := StopMSRequests w + d\<rparr>"

text \<open>
  \<^verbatim>\<open>time.Duration(n) * time.Second\<close>, in nanoseconds: \<^verbatim>\<open>time.Duration\<close> is \<^verbatim>\<open>int64\<close>; the
  conversion of a Go \<^verbatim>\<open>int\<close> is exact (it has at most 64 bits), the product wraps.
\<close>

definition Duration_Seconds :: "int \<Rightarrow> 64 word" where
  "Duration_Seconds n = word_of_int n * 1000000000"

subsection \<open>Error texts\<close>

text \<open>
  The functions return \<^verbatim>\<open>fmt.Errorf(...)\<close> values; an error is its text.  \<open>show_int\<close> is the
  \<^verbatim>\<open>%d\<close> verb.
\<close>

fun show_nat :: "nat \<Rightarrow> string" where
  "show_nat n = (if n < 10 then [''0123456789'' ! n] else show_nat (n div 10) @ [''0123456789'' ! (n mod 10)])"

definition show_int :: "int \<Rightarrow> string" where
  "show_int i = (if i < 0 then CHR ''-'' # show_nat (nat (- i)) else show_nat (nat i))"

definition NotOnlineError :: string where
  "NotOnlineError = ''StopMS: server is not online''"

definition ServerNotEmptyError :: string where
  "ServerNotEmptyError = ''StopMS: server is not empty''"

definition PendingRequestsError :: "32 word \<Rightarrow> string" where
  "PendingRequestsError n =
     ''StopMS: not enough time has passed since last player disconnected (StopMSRequests: ''
       @ show_int (sint n) @ '')''"

definition StopCommandError :: "string \<Rightarrow> string" where
  "StopCommandError e = ''StopMS: error executing minecraft server stop command: '' @ e"

subsection \<open>StopMS (lines 25-70)\<close>

text \<open>
  Lines 30-32, \<^verbatim>\<open>for Stats.Status == "starting" { time.Sleep(1 * time.Second) }\<close>.
  The loop ends when the signal takes \<open>Status\<close> away from \<open>starting\<close>.  When the signal is
  used up and \<open>Status\<close> is still \<open>starting\<close>, nothing will change it any more and the loop
  sleeps forever: the result is \<open>None\<close>.  A finite signal loses nothing: the loop only
  sees whether \<open>Status\<close> is \<open>starting\<close>, so a server that leaves \<open>starting\<close> does so after
  finitely many seconds, and one that never does is the used-up signal.
\<close>

function wait_starting :: "world \<Rightarrow> world option" where
  "wait_starting w =
     (if Status w = ''starting''
      then (if signal w = [] then None else wait_starting (time_Sleep 1 w))
      else Some w)"
  by pat_completeness auto
termination
  by (relation "measure (\<lambda>w. length (signal w))")
     (auto simp: time_Sleep_def emit_def tick_def split: list.splits)

text \<open>Lines 58-69: execute the stop command, then start the watchdog if killing is allowed.\<close>

definition execute_stop :: "config \<Rightarrow> answers \<Rightarrow> world \<Rightarrow> string option \<times> world" where
  "execute_stop cfg ans w =
     (let w1 = emit (Execute (StopServer cfg) ''StopMS'') w in
      case errExec ans of
        Some e \<Rightarrow> (Some (StopCommandError e), w1)
      | None \<Rightarrow>
          if StopServerAllowKill cfg > 0
          then (None, emit GoKillMSifOnlineAfterTimeout (w1\<lparr>watchdogs := watchdogs w1 + 1\<rparr>))
          else (None, w1))"

text \<open>
  \<^verbatim>\<open>StopMS(playersCheck)\<close>.  The result is \<open>None\<close> when the call never returns, else the
  returned error (\<open>None\<close> for \<^verbatim>\<open>nil\<close>) and the world it leaves.

  The call accesses the counter three times: the atomic addition of line 42, whose
  result is dropped, the atomic load of line 53, and the plain read of line 54 for the
  error text.  Each reads the global as it is at that moment, so what other goroutines
  added since the previous access is in the value read.
\<close>

definition StopMS :: "config \<Rightarrow> answers \<Rightarrow> bool \<Rightarrow> world \<Rightarrow> (string option \<times> world) option" where
  "StopMS cfg ans playersCheck w0 =
     (case wait_starting w0 of
        None \<Rightarrow> None
      | Some w1 \<Rightarrow> Some (
          if Status w1 \<noteq> ''online'' then (Some NotOnlineError, w1)
          else if playersCheck then
            (let w2 = atomic_AddInt32 (- 1) w1;
                 w3 = emit CountPlayerSafe w2;
                 w4 = emit (Logln [LInt (playerCount ans),
                        LStr ''online players - number got from server:'',
                        LBool (isFromServer ans)]) w3
             in if playerCount ans > 0 then (Some ServerNotEmptyError, w4)
                else
                  (let w5 = emit AtomicLoadInt32 (others_add (othersLine53 ans) w4)
                   in if sint (StopMSRequests w5) > 0
                      then (let w6 = others_add (othersLine54 ans) w5
                            in (Some (PendingRequestsError (StopMSRequests w6)), w6))
                      else execute_stop cfg ans w5))
          else execute_stop cfg ans w1))"

subsection \<open>StopMSRequest (lines 74-90)\<close>

text \<open>
  The call itself: the counter goes up by one and one callback is scheduled.  The event
  \<open>AfterFunc d\<close> stands for \<^verbatim>\<open>time.AfterFunc(d, f)\<close>, with \<open>d\<close> the duration line 79 computes.
  \<^verbatim>\<open>time.AfterFunc\<close> runs \<open>f\<close> once \<open>d\<close> has passed, and at once when \<open>d\<close> is not positive.
\<close>

definition StopMSRequest :: "config \<Rightarrow> world \<Rightarrow> world" where
  "StopMSRequest cfg w =
     (let w1 = atomic_AddInt32 1 w
      in emit (AfterFunc (Duration_Seconds (TimeBeforeStoppingEmptyServer cfg)))
           (w1\<lparr>timers := timers w1 + 1\<rparr>))"

text \<open>
  The callback handed to \<^verbatim>\<open>time.AfterFunc\<close> (lines 80-89).  The Go closure returns
  nothing; the first component of the result is the value of its local \<^verbatim>\<open>err\<close>, kept so
  that theorems can speak of what \<^verbatim>\<open>StopMS(true)\<close> returned to it.
\<close>

definition StopMSRequest_func :: "config \<Rightarrow> answers \<Rightarrow> world \<Rightarrow> (string option \<times> world) option" where
  "StopMSRequest_func cfg ans w =
     (case StopMS cfg ans True w of
        None \<Rightarrow> None
      | Some (err, w1) \<Rightarrow> Some (err,
          case err of
            None \<Rightarrow> w1
          | Some e \<Rightarrow>
              if e \<noteq> ''StopMS: server is not online''
              then emit (Logln [LStr ''StopMSRequest:'', LErr e]) w1
              else w1))"

subsection \<open>killMSifOnlineAfterTimeout (lines 93-119)\<close>

text \<open>
  Lines 96-104.  \<open>Inl\<close> is the \<^verbatim>\<open>return\<close> of line 99, \<open>Inr\<close> the end of the loop.  The
  countdown only goes down from the configured value, so Go's \<^verbatim>\<open>int\<close> cannot overflow here.
\<close>

function countdown_loop :: "int \<Rightarrow> world \<Rightarrow> world + world" where
  "countdown_loop countdown w =
     (if countdown > 0
      then (if Status w = ''offline'' then Inl w
            else countdown_loop (countdown - 1) (time_Sleep 1 w))
      else Inr w)"
  by pat_completeness auto
termination
  by (relation "measure (\<lambda>(countdown, w). nat countdown)") auto

text \<open>
  Lines 94-118.  The result of \<^verbatim>\<open>Execute("save-all", ...)\<close> is dropped (line 108), so
  \<open>errSaveAll\<close> is not read.  \<^verbatim>\<open>ServTerm.cmd.Process\<close> is taken to be the started process
  (the watchdog is started only after a delivered stop command).
\<close>

definition killMSifOnlineAfterTimeout :: "config \<Rightarrow> answers \<Rightarrow> world \<Rightarrow> world" where
  "killMSifOnlineAfterTimeout cfg ans w =
     (case countdown_loop (StopServerAllowKill cfg) w of
        Inl w1 \<Rightarrow> w1
      | Inr w1 \<Rightarrow>
          (let w2 = emit (Logln [LStr ''saving word before killing the minecraft server process'']) w1;
               w3 = emit (Execute ''save-all'' ''killMSifOnlineAfterTimeout'') w2;
               w4 = time_Sleep 10 w3;
               w5 = emit (Logln [LStr ''send kill signal to minecraft server process since it won't stop normally'']) w4;
               w6 = emit ProcessKill w5
           in case errKill ans of
                None \<Rightarrow> w6
              | Some e \<Rightarrow> emit (Logln [LStr ''killMSifOnlineAfterTimeout: %v'', LErr e]) w6))"

subsection \<open>The core as a whole\<close>

text \<open>\<open>Status\<close> as a poll made \<open>i\<close> seconds from now reads it.\<close>

definition status_after :: "nat \<Rightarrow> world \<Rightarrow> string" where
  "status_after i w = Status ((tick ^^ i) w)"

text \<open>
  What can happen to the core: a caller calls \<^verbatim>\<open>StopMS\<close> or \<^verbatim>\<open>StopMSRequest\<close>, the Go
  runtime fires a scheduled callback or runs a started watchdog goroutine, or a second
  passes while none of this code runs.  A run lists them one after the other, each run to
  its end; what goroutines that are not in the list add to the counter while a step is
  under way is in the answers of the step.  A timer fires only if one is scheduled and a
  watchdog runs only if one was started; otherwise the action does nothing.  The scheduled callbacks are one and the same closure, which
  captures nothing, so the order in which timers fire shows only in what each firing
  meets: the world at that moment and the answers of the outside.
\<close>

datatype action =
    CallStopMS bool answers
  | CallStopMSRequest
  | TimerFires answers
  | WatchdogRuns answers
  | Tick

fun is_TimerFires :: "action \<Rightarrow> bool" where
  "is_TimerFires (TimerFires ans) = True"
| "is_TimerFires a = False"

text \<open>
  The result of a step is \<open>None\<close> when the code never returns.  Otherwise it is the world
  left, with the error value the step produced: the error \<^verbatim>\<open>StopMS\<close> returned to its caller
  or to the callback (its local \<^verbatim>\<open>err\<close>), and \<open>None\<close> for the other actions, which return
  nothing.
\<close>

fun core_step :: "config \<Rightarrow> action \<Rightarrow> world \<Rightarrow> (string option \<times> world) option" where
  "core_step cfg (CallStopMS playersCheck ans) w = StopMS cfg ans playersCheck w"
| "core_step cfg CallStopMSRequest w = Some (None, StopMSRequest cfg w)"
| "core_step cfg (TimerFires ans) w =
     (if timers w = 0 then Some (None, w)
      else StopMSRequest_func cfg ans (w\<lparr>timers := timers w - 1\<rparr>))"
| "core_step cfg (WatchdogRuns ans) w =
     (if watchdogs w = 0 then Some (None, w)
      else Some (None, killMSifOnlineAfterTimeout cfg ans (w\<lparr>watchdogs := watchdogs w - 1\<rparr>)))"
| "core_step cfg Tick w = Some (None, tick w)"

fun core_run :: "config \<Rightarrow> action list \<Rightarrow> world \<Rightarrow> (string option list \<times> world) option" where
  "core_run cfg [] w = Some ([], w)"
| "core_run cfg (a # acts) w =
     (case core_step cfg a w of
        None \<Rightarrow> None
      | Some (err, w1) \<Rightarrow>
          (case core_run cfg acts w1 of
             None \<Rightarrow> None
           | Some (errs, w2) \<Rightarrow> Some (err # errs, w2)))"

text \<open>The log lines among the events.\<close>

fun is_Logln :: "event \<Rightarrow> bool" where
  "is_Logln (Logln args) = True"
| "is_Logln e = False"

text \<open>
  The world after \<open>k\<close> one-second sleeps and nothing else: \<open>Status\<close> is what the signal made
  it, the trace has \<open>k\<close> more \<open>Sleep 1\<close>, the counter, timers and watchdogs are as before.
\<close>

definition waited :: "nat \<Rightarrow> world \<Rightarrow> world" where
  "waited k w = w\<lparr>Status := status_after k w, signal := drop k (signal w),
                  trace := trace w @ replicate k (Sleep 1)\<rparr>"

section \<open>Basic facts\<close>

declare wait_starting.simps [simp del]
declare countdown_loop.simps [simp del]

lemma emit_fields [simp]:
  "trace (emit e w) = trace w @ [e]"
  "Status (emit e w) = Status w"
  "StopMSRequests (emit e w) = StopMSRequests w"
  "signal (emit e w) = signal w"
  "timers (emit e w) = timers w"
  "watchdogs (emit e w) = watchdogs w"
  by (simp_all add: emit_def)

lemma tick_fields [simp]:
  "trace (tick w) = trace w"
  "StopMSRequests (tick w) = StopMSRequests w"
  "signal (tick w) = tl (signal w)"
  "timers (tick w) = timers w"
  "watchdogs (tick w) = watchdogs w"
  by (simp_all add: tick_def split: list.splits)

lemma ticks_fields [simp]:
  "trace ((tick ^^ n) w) = trace w"
  "StopMSRequests ((tick ^^ n) w) = StopMSRequests w"
  "signal ((tick ^^ n) w) = drop n (signal w)"
  "timers ((tick ^^ n) w) = timers w"
  "watchdogs ((tick ^^ n) w) = watchdogs w"
  by (induction n, simp_all add: drop_Suc tl_drop)+

lemma status_after_0 [simp]: "status_after 0 w = Status w"
  by (simp add: status_after_def)

lemma status_after_Suc: "status_after (Suc i) w = status_after i (tick w)"
  by (simp add: status_after_def funpow_swap1)

lemma tick_emit: "tick (emit e w) = emit e (tick w)"
  by (simp add: tick_def emit_def split: list.splits)

lemma ticks_emit: "(tick ^^ n) (emit e w) = emit e ((tick ^^ n) w)"
  by (induction n) (simp_all add: tick_emit)

lemma status_after_emit [simp]: "status_after i (emit e w) = status_after i w"
  by (simp add: status_after_def ticks_emit)

lemma time_Sleep_fields [simp]:
  "trace (time_Sleep n w) = trace w @ [Sleep n]"
  "Status (time_Sleep n w) = status_after n w"
  "StopMSRequests (time_Sleep n w) = StopMSRequests w"
  "signal (time_Sleep n w) = drop n (signal w)"
  "timers (time_Sleep n w) = timers w"
  "watchdogs (time_Sleep n w) = watchdogs w"
  by (simp_all add: time_Sleep_def status_after_def)

lemma status_after_time_Sleep [simp]:
  "status_after i (time_Sleep n w) = status_after (i + n) w"
  by (simp add: time_Sleep_def status_after_def funpow_add ticks_emit)

lemma status_after_no_signal: "signal w = [] \<Longrightarrow> status_after i w = Status w"
proof (induction i)
  case 0
  then show ?case by simp
next
  case (Suc i)
  then have "tick w = w" by (simp add: tick_def)
  with Suc show ?case by (simp add: status_after_Suc)
qed

lemma waited_0 [simp]: "waited 0 w = w"
  by (simp add: waited_def)

lemma waited_Suc [simp]: "waited k (time_Sleep (Suc 0) w) = waited (Suc k) w"
  by (rule world.equality) (simp_all add: waited_def replicate_append_same drop_Suc tl_drop)

lemma waited_fields [simp]:
  "trace (waited k w) = trace w @ replicate k (Sleep 1)"
  "Status (waited k w) = status_after k w"
  "StopMSRequests (waited k w) = StopMSRequests w"
  "signal (waited k w) = drop k (signal w)"
  "timers (waited k w) = timers w"
  "watchdogs (waited k w) = watchdogs w"
  by (simp_all add: waited_def)

lemma atomic_AddInt32_fields [simp]:
  "trace (atomic_AddInt32 d w) = trace w @ [AtomicAddInt32 d]"
  "Status (atomic_AddInt32 d w) = Status w"
  "StopMSRequests (atomic_AddInt32 d w) = StopMSRequests w + d"
  "signal (atomic_AddInt32 d w) = signal w"
  "timers (atomic_AddInt32 d w) = timers w"
  "watchdogs (atomic_AddInt32 d w) = watchdogs w"
  by (simp_all add: atomic_AddInt32_def)

lemma others_add_fields [simp]:
  "trace (others_add d w) = trace w"
  "Status (others_add d w) = Status w"
  "StopMSRequests (others_add d w) = StopMSRequests w + d"
  "signal (others_add d w) = signal w"
  "timers (others_add d w) = timers w"
  "watchdogs (others_add d w) = watchdogs w"
  by (simp_all add: others_add_def)

lemma wait_starting_done [simp]: "Status w \<noteq> ''starting'' \<Longrightarrow> wait_starting w = Some w"
  by (subst wait_starting.simps) simp



section \<open>The wait for a starting server\<close>

lemma wait_starting_eq:
  "\<forall>j<k. status_after j w = ''starting'' \<Longrightarrow> status_after k w \<noteq> ''starting'' \<Longrightarrow>
   wait_starting w = Some (waited k w)"
proof (induction k arbitrary: w)
  case 0
  then show ?case by (subst wait_starting.simps) simp
next
  case (Suc k)
  from Suc.prems(1) have st: "Status w = ''starting''" by force
  have sig: "signal w \<noteq> []"
  proof
    assume "signal w = []"
    then have "status_after (Suc k) w = Status w" by (rule status_after_no_signal)
    with st Suc.prems(2) show False by simp
  qed
  have "\<forall>j<k. status_after j (time_Sleep 1 w) = ''starting''"
    using Suc.prems(1) by simp
  moreover have "status_after k (time_Sleep 1 w) \<noteq> ''starting''"
    using Suc.prems(2) by simp
  ultimately have "wait_starting (time_Sleep 1 w) = Some (waited k (time_Sleep 1 w))"
    by (rule Suc.IH)
  with st sig show ?case by (subst wait_starting.simps) simp
qed

lemma wait_starting_forever:
  "\<forall>j. status_after j w = ''starting'' \<Longrightarrow> wait_starting w = None"
proof (induction w rule: wait_starting.induct)
  case (1 w)
  from "1.prems" have st: "Status w = ''starting''"
    by (metis status_after_0)
  show ?case
  proof (cases "signal w = []")
    case True
    with st show ?thesis by (subst wait_starting.simps) simp
  next
    case False
    have "\<forall>j. status_after j (time_Sleep 1 w) = ''starting''"
      using "1.prems" by simp
    with "1.IH" st False have "wait_starting (time_Sleep 1 w) = None" by blast
    with st False show ?thesis by (subst wait_starting.simps) simp
  qed
qed

lemma wait_starting_cases:
  obtains (forever) "\<forall>j. status_after j w = ''starting''" "wait_starting w = None"
  | (leaves) k where "\<forall>j<k. status_after j w = ''starting''" "status_after k w \<noteq> ''starting''"
      "wait_starting w = Some (waited k w)"
proof (cases "\<forall>j. status_after j w = ''starting''")
  case True
  have "wait_starting w = None" using True by (rule wait_starting_forever)
  with True show ?thesis by (rule forever)
next
  case False
  define P where "P j = (status_after j w \<noteq> ''starting'')" for j
  from False obtain j where "P j" unfolding P_def by blast
  then have "P (LEAST j. P j)" by (rule LeastI)
  moreover have "\<forall>j<(LEAST j. P j). \<not> P j" using not_less_Least by blast
  ultimately have a: "\<forall>j<(LEAST j. P j). status_after j w = ''starting''"
    and b: "status_after (LEAST j. P j) w \<noteq> ''starting''"
    unfolding P_def by simp_all
  from a b have "wait_starting w = Some (waited (LEAST j. P j) w)" by (rule wait_starting_eq)
  with a b show ?thesis by (rule leaves)
qed

section \<open>The error texts are distinct\<close>

lemma error_texts_distinct [simp]:
  "ServerNotEmptyError \<noteq> NotOnlineError"
  "PendingRequestsError n \<noteq> NotOnlineError"
  "StopCommandError e \<noteq> NotOnlineError"
  "PendingRequestsError n \<noteq> ServerNotEmptyError"
  "StopCommandError e \<noteq> ServerNotEmptyError"
  "NotOnlineError \<noteq> ServerNotEmptyError"
  by (simp_all add: ServerNotEmptyError_def NotOnlineError_def PendingRequestsError_def
        StopCommandError_def)

lemma stop_result_distinct [simp]:
  "map_option StopCommandError x \<noteq> Some ServerNotEmptyError"
  "map_option StopCommandError x \<noteq> Some NotOnlineError"
  "Some ServerNotEmptyError \<noteq> map_option StopCommandError x"
  "Some NotOnlineError \<noteq> map_option StopCommandError x"
  by (cases x; simp add: error_texts_distinct [THEN not_sym])+

section \<open>The paths through StopMS\<close>

lemma StopMS_forever:
  "\<forall>j. status_after j w = ''starting'' \<Longrightarrow> StopMS cfg ans playersCheck w = None"
  by (simp add: StopMS_def wait_starting_forever)

lemma StopMS_not_online:
  assumes "\<forall>j<k. status_after j w = ''starting''"
    and "status_after k w \<noteq> ''starting''" and "status_after k w \<noteq> ''online''"
  shows "StopMS cfg ans playersCheck w = Some (Some NotOnlineError, waited k w)"
  using assms by (simp add: StopMS_def wait_starting_eq)

lemma StopMS_online:
  assumes "\<forall>j<k. status_after j w = ''starting''" and "status_after k w = ''online''"
  shows "StopMS cfg ans playersCheck w = Some (
           if playersCheck then
            (let w2 = atomic_AddInt32 (- 1) (waited k w);
                 w3 = emit CountPlayerSafe w2;
                 w4 = emit (Logln [LInt (playerCount ans),
                        LStr ''online players - number got from server:'',
                        LBool (isFromServer ans)]) w3
             in if playerCount ans > 0 then (Some ServerNotEmptyError, w4)
                else
                  (let w5 = emit AtomicLoadInt32 (others_add (othersLine53 ans) w4)
                   in if sint (StopMSRequests w5) > 0
                      then (let w6 = others_add (othersLine54 ans) w5
                            in (Some (PendingRequestsError (StopMSRequests w6)), w6))
                      else execute_stop cfg ans w5))
          else execute_stop cfg ans (waited k w))"
proof -
  from assms(2) have "status_after k w \<noteq> ''starting''" by simp
  with assms(1) have "wait_starting w = Some (waited k w)" by (rule wait_starting_eq)
  with assms(2) show ?thesis by (simp add: StopMS_def)
qed

lemma execute_stop_fst:
  "fst (execute_stop cfg ans w) = map_option StopCommandError (errExec ans)"
  by (simp add: execute_stop_def Let_def split: option.splits)

lemma execute_stop_fields [simp]:
  "trace (snd (execute_stop cfg ans w)) = trace w @ Execute (StopServer cfg) ''StopMS'' #
     (if errExec ans = None \<and> StopServerAllowKill cfg > 0 then [GoKillMSifOnlineAfterTimeout] else [])"
  "Status (snd (execute_stop cfg ans w)) = Status w"
  "StopMSRequests (snd (execute_stop cfg ans w)) = StopMSRequests w"
  "signal (snd (execute_stop cfg ans w)) = signal w"
  "timers (snd (execute_stop cfg ans w)) = timers w"
  "watchdogs (snd (execute_stop cfg ans w)) =
     (if errExec ans = None \<and> StopServerAllowKill cfg > 0 then watchdogs w + 1 else watchdogs w)"
  by (simp_all add: execute_stop_def Let_def split: option.splits)

lemma execute_stop_eq:
  "execute_stop cfg ans w = (map_option StopCommandError (errExec ans), snd (execute_stop cfg ans w))"
  by (metis execute_stop_fst prod.collapse)

lemma StopMS_returns:
  assumes "StopMS cfg ans playersCheck w = Some (err, w')"
  obtains k where "\<forall>j<k. status_after j w = ''starting''" "status_after k w \<noteq> ''starting''"
proof (cases w rule: wait_starting_cases)
  case forever
  with assms show ?thesis by (simp add: StopMS_def)
next
  case (leaves k)
  then show ?thesis using that by blast
qed

lemma StopMS_cases:
  assumes "\<forall>j<k. status_after j w = ''starting''" and "status_after k w \<noteq> ''starting''"
    and "StopMS cfg ans playersCheck w = Some (err, w')"
  obtains
    (not_online) "status_after k w \<noteq> ''online''" "err = Some NotOnlineError" "w' = waited k w"
  | (not_empty) "status_after k w = ''online''" "playersCheck" "playerCount ans > 0"
      "err = Some ServerNotEmptyError"
      "w' = emit (Logln [LInt (playerCount ans), LStr ''online players - number got from server:'',
                        LBool (isFromServer ans)])
              (emit CountPlayerSafe (atomic_AddInt32 (- 1) (waited k w)))"
  | (pending) "status_after k w = ''online''" "playersCheck" "\<not> playerCount ans > 0"
      "sint (StopMSRequests w - 1 + othersLine53 ans) > 0"
      "err = Some (PendingRequestsError (StopMSRequests w - 1 + othersLine53 ans + othersLine54 ans))"
      "w' = others_add (othersLine54 ans) (emit AtomicLoadInt32 (others_add (othersLine53 ans)
              (emit (Logln [LInt (playerCount ans), LStr ''online players - number got from server:'',
                        LBool (isFromServer ans)])
                (emit CountPlayerSafe (atomic_AddInt32 (- 1) (waited k w))))))"
  | (stop_checked) "status_after k w = ''online''" "playersCheck" "\<not> playerCount ans > 0"
      "\<not> sint (StopMSRequests w - 1 + othersLine53 ans) > 0"
      "err = map_option StopCommandError (errExec ans)"
      "w' = snd (execute_stop cfg ans (emit AtomicLoadInt32 (others_add (othersLine53 ans)
              (emit (Logln [LInt (playerCount ans), LStr ''online players - number got from server:'',
                        LBool (isFromServer ans)])
                (emit CountPlayerSafe (atomic_AddInt32 (- 1) (waited k w)))))))"
  | (stop_unchecked) "status_after k w = ''online''" "\<not> playersCheck"
      "err = map_option StopCommandError (errExec ans)"
      "w' = snd (execute_stop cfg ans (waited k w))"
proof (cases "status_after k w = ''online''")
  case False
  with assms have "err = Some NotOnlineError" "w' = waited k w"
    by (simp_all add: StopMS_not_online)
  with False show ?thesis by (rule not_online)
next
  case True
  note eq = StopMS_online [OF assms(1) True, of cfg ans playersCheck]
  show ?thesis
  proof (cases playersCheck)
    case False
    with assms(3) eq have "(err, w') = execute_stop cfg ans (waited k w)" by simp
    then have "err = map_option StopCommandError (errExec ans)"
      "w' = snd (execute_stop cfg ans (waited k w))"
      by (metis execute_stop_fst fst_conv, metis snd_conv)
    with True False show ?thesis by (rule stop_unchecked)
  next
    case pc: True
    show ?thesis
    proof (cases "playerCount ans > 0")
      case True
      with assms(3) eq pc have "err = Some ServerNotEmptyError"
        "w' = emit (Logln [LInt (playerCount ans), LStr ''online players - number got from server:'',
                        LBool (isFromServer ans)])
              (emit CountPlayerSafe (atomic_AddInt32 (- 1) (waited k w)))"
        by (simp_all add: Let_def)
      with \<open>status_after k w = ''online''\<close> pc True show ?thesis by (rule not_empty)
    next
      case np: False
      let ?w4 = "emit (Logln [LInt (playerCount ans), LStr ''online players - number got from server:'',
                        LBool (isFromServer ans)])
                (emit CountPlayerSafe (atomic_AddInt32 (- 1) (waited k w)))"
      let ?w5 = "emit AtomicLoadInt32 (others_add (othersLine53 ans) ?w4)"
      have c5: "StopMSRequests ?w5 = StopMSRequests w - 1 + othersLine53 ans" by simp
      show ?thesis
      proof (cases "sint (StopMSRequests w - 1 + othersLine53 ans) > 0")
        case True
        with assms(3) eq pc np c5
        have "err = Some (PendingRequestsError (StopMSRequests w - 1 + othersLine53 ans + othersLine54 ans))"
          "w' = others_add (othersLine54 ans) ?w5"
          by (simp_all add: Let_def)
        with \<open>status_after k w = ''online''\<close> pc np True show ?thesis by (rule pending)
      next
        case False
        from assms(3) eq pc np False c5 have "(err, w') = execute_stop cfg ans ?w5"
          by (simp add: Let_def)
        then have "err = map_option StopCommandError (errExec ans)"
          "w' = snd (execute_stop cfg ans ?w5)"
          by (metis execute_stop_fst fst_conv, metis snd_conv)
        with \<open>status_after k w = ''online''\<close> pc np False show ?thesis by (rule stop_checked)
      qed
    qed
  qed
qed

section \<open>The paths through the watchdog\<close>

lemma countdown_loop_expires:
  "\<forall>j<k. status_after j w \<noteq> ''offline'' \<Longrightarrow> countdown_loop (int k) w = Inr (waited k w)"
proof (induction k arbitrary: w)
  case 0
  then show ?case by (subst countdown_loop.simps) simp
next
  case (Suc k)
  from Suc.prems have st: "Status w \<noteq> ''offline''" by force
  have "\<forall>j<k. status_after j (time_Sleep 1 w) \<noteq> ''offline''"
    using Suc.prems by simp
  then have "countdown_loop (int k) (time_Sleep 1 w) = Inr (waited k (time_Sleep 1 w))"
    by (rule Suc.IH)
  with st show ?case by (subst countdown_loop.simps) simp
qed

lemma countdown_loop_offline:
  "\<forall>j<i. status_after j w \<noteq> ''offline'' \<Longrightarrow> status_after i w = ''offline'' \<Longrightarrow> i < k \<Longrightarrow>
   countdown_loop (int k) w = Inl (waited i w)"
proof (induction i arbitrary: w k)
  case 0
  then show ?case by (subst countdown_loop.simps) simp
next
  case (Suc i)
  from Suc.prems(1) have st: "Status w \<noteq> ''offline''" by force
  from Suc.prems(3) obtain k' where k: "k = Suc k'" and lt: "i < k'"
    by (cases k) simp_all
  have "\<forall>j<i. status_after j (time_Sleep 1 w) \<noteq> ''offline''"
    using Suc.prems(1) by simp
  moreover have "status_after i (time_Sleep 1 w) = ''offline''"
    using Suc.prems(2) by simp
  ultimately have "countdown_loop (int k') (time_Sleep 1 w) = Inl (waited i (time_Sleep 1 w))"
    using lt by (rule Suc.IH)
  with st k show ?case by (subst countdown_loop.simps) simp
qed

lemma countdown_loop_nat: "countdown_loop c w = countdown_loop (int (nat c)) w"
proof (cases "c \<le> 0")
  case True
  then show ?thesis by (subst countdown_loop.simps, subst (2) countdown_loop.simps) simp
next
  case False
  then show ?thesis by simp
qed

lemma killMS_offline:
  assumes "\<forall>j<i. status_after j w \<noteq> ''offline''" and "status_after i w = ''offline''"
    and "i < nat (StopServerAllowKill cfg)"
  shows "killMSifOnlineAfterTimeout cfg ans w = waited i w"
proof -
  from assms have "countdown_loop (int (nat (StopServerAllowKill cfg))) w = Inl (waited i w)"
    by (rule countdown_loop_offline)
  then have "countdown_loop (StopServerAllowKill cfg) w = Inl (waited i w)"
    by (subst countdown_loop_nat)
  then show ?thesis by (simp add: killMSifOnlineAfterTimeout_def)
qed

lemma killMS_expired:
  assumes "\<forall>j<nat (StopServerAllowKill cfg). status_after j w \<noteq> ''offline''"
  shows "killMSifOnlineAfterTimeout cfg ans w =
    (let w2 = emit (Logln [LStr ''saving word before killing the minecraft server process''])
                (waited (nat (StopServerAllowKill cfg)) w);
         w3 = emit (Execute ''save-all'' ''killMSifOnlineAfterTimeout'') w2;
         w4 = time_Sleep 10 w3;
         w5 = emit (Logln [LStr ''send kill signal to minecraft server process since it won't stop normally'']) w4;
         w6 = emit ProcessKill w5
     in case errKill ans of
          None \<Rightarrow> w6
        | Some e \<Rightarrow> emit (Logln [LStr ''killMSifOnlineAfterTimeout: %v'', LErr e]) w6)"
proof -
  from assms have "countdown_loop (int (nat (StopServerAllowKill cfg))) w
      = Inr (waited (nat (StopServerAllowKill cfg)) w)"
    by (rule countdown_loop_expires)
  then have "countdown_loop (StopServerAllowKill cfg) w = Inr (waited (nat (StopServerAllowKill cfg)) w)"
    by (subst countdown_loop_nat)
  then show ?thesis by (simp add: killMSifOnlineAfterTimeout_def)
qed

lemma killMS_expired_trace:
  assumes "\<forall>j<nat (StopServerAllowKill cfg). status_after j w \<noteq> ''offline''"
  shows "trace (killMSifOnlineAfterTimeout cfg ans w) =
     trace w @ replicate (nat (StopServerAllowKill cfg)) (Sleep 1) @
       [Logln [LStr ''saving word before killing the minecraft server process''],
        Execute ''save-all'' ''killMSifOnlineAfterTimeout'',
        Sleep 10,
        Logln [LStr ''send kill signal to minecraft server process since it won't stop normally''],
        ProcessKill] @
       (case errKill ans of None \<Rightarrow> []
        | Some e \<Rightarrow> [Logln [LStr ''killMSifOnlineAfterTimeout: %v'', LErr e]])"
  by (simp add: killMS_expired [OF assms] Let_def split: option.splits)

lemma killMS_cases:
  obtains (offline) i where "i < nat (StopServerAllowKill cfg)"
      "\<forall>j<i. status_after j w \<noteq> ''offline''" "status_after i w = ''offline''"
  | (expired) "\<forall>j<nat (StopServerAllowKill cfg). status_after j w \<noteq> ''offline''"
proof (cases "\<forall>j<nat (StopServerAllowKill cfg). status_after j w \<noteq> ''offline''")
  case True
  then show ?thesis by (rule expired)
next
  case False
  define P where "P j = (status_after j w = ''offline'')" for j
  from False obtain j where j: "j < nat (StopServerAllowKill cfg)" "P j"
    unfolding P_def by blast
  then have "P (LEAST j. P j)" by (simp add: LeastI)
  moreover have "(LEAST j. P j) \<le> j" using j(2) by (rule Least_le)
  moreover have "\<forall>j<(LEAST j. P j). \<not> P j" using not_less_Least by blast
  ultimately have "(LEAST j. P j) < nat (StopServerAllowKill cfg)"
    "\<forall>j<(LEAST j. P j). status_after j w \<noteq> ''offline''"
    "status_after (LEAST j. P j) w = ''offline''"
    using j(1) unfolding P_def by simp_all
  then show ?thesis by (rule offline)
qed

lemma killMS_answers:
  "killMSifOnlineAfterTimeout cfg ans w
     = (killMSifOnlineAfterTimeout cfg ans' w)\<lparr>trace := trace (killMSifOnlineAfterTimeout cfg ans w)\<rparr>"
  "filter (\<lambda>e. \<not> is_Logln e) (trace (killMSifOnlineAfterTimeout cfg ans w))
     = filter (\<lambda>e. \<not> is_Logln e) (trace (killMSifOnlineAfterTimeout cfg ans' w))"
proof -
  have "killMSifOnlineAfterTimeout cfg ans w
     = (killMSifOnlineAfterTimeout cfg ans' w)\<lparr>trace := trace (killMSifOnlineAfterTimeout cfg ans w)\<rparr>
   \<and> filter (\<lambda>e. \<not> is_Logln e) (trace (killMSifOnlineAfterTimeout cfg ans w))
     = filter (\<lambda>e. \<not> is_Logln e) (trace (killMSifOnlineAfterTimeout cfg ans' w))"
  proof (cases cfg w rule: killMS_cases)
    case (offline i)
    then have "killMSifOnlineAfterTimeout cfg ans w = waited i w"
      "killMSifOnlineAfterTimeout cfg ans' w = waited i w"
      by (simp_all add: killMS_offline)
    then show ?thesis by simp
  next
    case expired
    define w6 where "w6 = emit ProcessKill
      (emit (Logln [LStr ''send kill signal to minecraft server process since it won't stop normally''])
        (time_Sleep 10
          (emit (Execute ''save-all'' ''killMSifOnlineAfterTimeout'')
            (emit (Logln [LStr ''saving word before killing the minecraft server process''])
              (waited (nat (StopServerAllowKill cfg)) w)))))"
    have r: "killMSifOnlineAfterTimeout cfg a w =
        (case errKill a of None \<Rightarrow> w6
         | Some e \<Rightarrow> emit (Logln [LStr ''killMSifOnlineAfterTimeout: %v'', LErr e]) w6)" for a
      unfolding w6_def by (simp add: killMS_expired [OF expired] Let_def)
    show ?thesis
      by (simp add: r [of ans] r [of ans'] emit_def split: option.splits)
  qed
  then show "killMSifOnlineAfterTimeout cfg ans w
     = (killMSifOnlineAfterTimeout cfg ans' w)\<lparr>trace := trace (killMSifOnlineAfterTimeout cfg ans w)\<rparr>"
    "filter (\<lambda>e. \<not> is_Logln e) (trace (killMSifOnlineAfterTimeout cfg ans w))
     = filter (\<lambda>e. \<not> is_Logln e) (trace (killMSifOnlineAfterTimeout cfg ans' w))"
    by simp_all
qed

section \<open>Invariants of the runs of the core\<close>

lemma StopMS_timers:
  assumes "StopMS cfg ans playersCheck w = Some (err, w')"
  shows "timers w' = timers w"
proof -
  from assms obtain k where k: "\<forall>j<k. status_after j w = ''starting''"
    "status_after k w \<noteq> ''starting''" by (rule StopMS_returns)
  from k assms show ?thesis by (cases rule: StopMS_cases) simp_all
qed

lemma StopMSRequest_func_timers:
  assumes "StopMSRequest_func cfg ans w = Some (err, w')"
  shows "timers w' = timers w"
  using assms
  by (auto simp: StopMSRequest_func_def StopMS_timers split: option.splits if_splits)

lemma countdown_loop_timers:
  "timers (case countdown_loop c w of Inl v \<Rightarrow> v | Inr v \<Rightarrow> v) = timers w"
proof (induction c w rule: countdown_loop.induct)
  case (1 countdown w)
  then show ?case by (subst countdown_loop.simps) simp
qed

lemma killMS_timers: "timers (killMSifOnlineAfterTimeout cfg ans w) = timers w"
  using countdown_loop_timers [of "StopServerAllowKill cfg" w]
  by (simp add: killMSifOnlineAfterTimeout_def Let_def split: sum.splits option.splits)

lemma core_step_timers:
  assumes "a \<noteq> CallStopMSRequest" and "core_step cfg a w = Some (err, w')"
  shows "timers w' \<le> timers w"
proof (cases a)
  case (CallStopMS pc ans)
  with assms(2) show ?thesis by (simp add: StopMS_timers)
next
  case CallStopMSRequest
  with assms(1) show ?thesis by simp
next
  case (TimerFires ans)
  with assms(2) show ?thesis
    by (auto split: if_splits dest!: StopMSRequest_func_timers)
next
  case (WatchdogRuns ans)
  with assms(2) show ?thesis by (auto simp: killMS_timers split: if_splits)
next
  case Tick
  with assms(2) show ?thesis by auto
qed

lemma core_run_timers:
  "\<forall>a\<in>set acts. a \<noteq> CallStopMSRequest \<Longrightarrow> core_run cfg acts w = Some (errs, w') \<Longrightarrow>
   timers w' \<le> timers w"
proof (induction acts arbitrary: w errs)
  case Nil
  then show ?case by simp
next
  case (Cons a acts)
  from Cons.prems(2) obtain err w1 errs1 where
    s: "core_step cfg a w = Some (err, w1)" and r: "core_run cfg acts w1 = Some (errs1, w')"
    by (auto split: option.splits)
  from Cons.prems(1) have "a \<noteq> CallStopMSRequest" by simp
  then have "timers w1 \<le> timers w" using s by (rule core_step_timers)
  moreover from Cons.prems(1) r have "timers w' \<le> timers w1" by (simp add: Cons.IH)
  ultimately show ?case by simp
qed

lemma StopMS_no_watchdog:
  assumes "StopServerAllowKill cfg \<le> 0" and "StopMS cfg ans playersCheck w = Some (err, w')"
  shows "watchdogs w' = watchdogs w
       \<and> (\<exists>evs. trace w' = trace w @ evs \<and> GoKillMSifOnlineAfterTimeout \<notin> set evs
             \<and> ProcessKill \<notin> set evs)"
proof -
  from assms(2) obtain k where k: "\<forall>j<k. status_after j w = ''starting''"
    "status_after k w \<noteq> ''starting''" by (rule StopMS_returns)
  from k assms(2) show ?thesis
  proof (cases rule: StopMS_cases)
  qed (insert assms(1), auto)
qed

lemma StopMSRequest_func_no_watchdog:
  assumes "StopServerAllowKill cfg \<le> 0" and "StopMSRequest_func cfg ans w = Some (err, w')"
  shows "watchdogs w' = watchdogs w
       \<and> (\<exists>evs. trace w' = trace w @ evs \<and> GoKillMSifOnlineAfterTimeout \<notin> set evs
             \<and> ProcessKill \<notin> set evs)"
proof (cases "StopMS cfg ans True w")
  case None
  with assms(2) show ?thesis by (simp add: StopMSRequest_func_def)
next
  case (Some r)
  obtain err1 w1 where r: "r = (err1, w1)" by (cases r)
  from StopMS_no_watchdog [OF assms(1) Some [unfolded r]] obtain evs where
    1: "watchdogs w1 = watchdogs w" "trace w1 = trace w @ evs"
       "GoKillMSifOnlineAfterTimeout \<notin> set evs" "ProcessKill \<notin> set evs" by blast
  from assms(2) Some r
  have "w' = w1 \<or> (\<exists>e. w' = emit (Logln [LStr ''StopMSRequest:'', LErr e]) w1)"
    by (simp add: StopMSRequest_func_def split: option.splits if_splits) blast
  then show ?thesis
  proof
    assume "w' = w1"
    with 1 show ?thesis by blast
  next
    assume "\<exists>e. w' = emit (Logln [LStr ''StopMSRequest:'', LErr e]) w1"
    then obtain e where e: "w' = emit (Logln [LStr ''StopMSRequest:'', LErr e]) w1" by blast
    with 1 have "watchdogs w' = watchdogs w"
      "trace w' = trace w @ (evs @ [Logln [LStr ''StopMSRequest:'', LErr e]])"
      "GoKillMSifOnlineAfterTimeout \<notin> set (evs @ [Logln [LStr ''StopMSRequest:'', LErr e]])"
      "ProcessKill \<notin> set (evs @ [Logln [LStr ''StopMSRequest:'', LErr e]])"
      by simp_all
    then show ?thesis by blast
  qed
qed

lemma core_step_no_kill:
  assumes "StopServerAllowKill cfg \<le> 0" and "watchdogs w = 0"
    and "core_step cfg a w = Some (err, w')"
  shows "watchdogs w' = 0
       \<and> (\<exists>evs. trace w' = trace w @ evs \<and> GoKillMSifOnlineAfterTimeout \<notin> set evs
             \<and> ProcessKill \<notin> set evs)"
proof (cases a)
  case (CallStopMS pc ans)
  with assms(3) have "StopMS cfg ans pc w = Some (err, w')" by simp
  from StopMS_no_watchdog [OF assms(1) this] assms(2) show ?thesis by simp
next
  case CallStopMSRequest
  with assms(2,3) show ?thesis
    by (auto simp: StopMSRequest_def Let_def)
next
  case (TimerFires ans)
  show ?thesis
  proof (cases "timers w = 0")
    case True
    with TimerFires assms(2,3) show ?thesis by auto
  next
    case False
    with TimerFires assms(3)
    have "StopMSRequest_func cfg ans (w\<lparr>timers := timers w - 1\<rparr>) = Some (err, w')" by simp
    from StopMSRequest_func_no_watchdog [OF assms(1) this] assms(2) show ?thesis by simp
  qed
next
  case (WatchdogRuns ans)
  with assms(2,3) show ?thesis by auto
next
  case Tick
  with assms(2,3) show ?thesis by auto
qed

lemma core_run_no_kill:
  assumes "StopServerAllowKill cfg \<le> 0"
  shows "watchdogs w = 0 \<Longrightarrow> core_run cfg acts w = Some (errs, w') \<Longrightarrow>
     watchdogs w' = 0
       \<and> (\<exists>evs. trace w' = trace w @ evs \<and> GoKillMSifOnlineAfterTimeout \<notin> set evs
             \<and> ProcessKill \<notin> set evs)"
proof (induction acts arbitrary: w errs)
  case Nil
  then show ?case by simp
next
  case (Cons a acts)
  from Cons.prems(2) obtain err w1 errs1 where
    s: "core_step cfg a w = Some (err, w1)" and r: "core_run cfg acts w1 = Some (errs1, w')"
    by (auto split: option.splits)
  from core_step_no_kill [OF assms Cons.prems(1) s] obtain evs1 where
    1: "watchdogs w1 = 0" "trace w1 = trace w @ evs1"
       "GoKillMSifOnlineAfterTimeout \<notin> set evs1" "ProcessKill \<notin> set evs1" by blast
  from Cons.IH [OF 1(1) r] obtain evs2 where
    2: "watchdogs w' = 0" "trace w' = trace w1 @ evs2"
       "GoKillMSifOnlineAfterTimeout \<notin> set evs2" "ProcessKill \<notin> set evs2" by blast
  from 1 2 have "trace w' = trace w @ (evs1 @ evs2)"
    "GoKillMSifOnlineAfterTimeout \<notin> set (evs1 @ evs2)" "ProcessKill \<notin> set (evs1 @ evs2)"
    by simp_all
  with 2(1) show ?case by blast
qed

lemma StopMS_no_increment:
  assumes "StopMS cfg ans playersCheck w = Some (err, w')"
  shows "\<exists>evs. trace w' = trace w @ evs \<and> AtomicAddInt32 1 \<notin> set evs"
proof -
  from assms obtain k where k: "\<forall>j<k. status_after j w = ''starting''"
    "status_after k w \<noteq> ''starting''" by (rule StopMS_returns)
  from k assms show ?thesis
    by (cases rule: StopMS_cases) auto
qed

lemma StopMSRequest_func_no_increment:
  assumes "StopMSRequest_func cfg ans w = Some (err, w')"
  shows "\<exists>evs. trace w' = trace w @ evs \<and> AtomicAddInt32 1 \<notin> set evs"
proof (cases "StopMS cfg ans True w")
  case None
  with assms show ?thesis by (simp add: StopMSRequest_func_def)
next
  case (Some r)
  obtain err1 w1 where r: "r = (err1, w1)" by (cases r)
  from StopMS_no_increment [OF Some [unfolded r]] obtain evs where
    1: "trace w1 = trace w @ evs" "AtomicAddInt32 1 \<notin> set evs" by blast
  from assms Some r
  have "trace w' = trace w1 \<or> (\<exists>e. trace w' = trace w1 @ [Logln [LStr ''StopMSRequest:'', LErr e]])"
    by (auto simp: StopMSRequest_func_def split: option.splits if_splits)
  then show ?thesis
  proof
    assume "trace w' = trace w1"
    with 1 show ?thesis by simp
  next
    assume "\<exists>e. trace w' = trace w1 @ [Logln [LStr ''StopMSRequest:'', LErr e]]"
    then obtain e where "trace w' = trace w @ (evs @ [Logln [LStr ''StopMSRequest:'', LErr e]])"
      using 1 by auto
    moreover have "AtomicAddInt32 1 \<notin> set (evs @ [Logln [LStr ''StopMSRequest:'', LErr e]])"
      using 1 by simp
    ultimately show ?thesis by blast
  qed
qed

lemma killMS_no_increment:
  "\<exists>evs. trace (killMSifOnlineAfterTimeout cfg ans w) = trace w @ evs \<and> AtomicAddInt32 1 \<notin> set evs"
proof (cases cfg w rule: killMS_cases)
  case (offline i)
  then have "killMSifOnlineAfterTimeout cfg ans w = waited i w" by (simp add: killMS_offline)
  then show ?thesis by simp
next
  case expired
  then show ?thesis by (simp add: killMS_expired_trace split: option.splits)
qed

lemma core_step_no_increment:
  assumes "a \<noteq> CallStopMSRequest" and "core_step cfg a w = Some (err, w')"
  shows "\<exists>evs. trace w' = trace w @ evs \<and> AtomicAddInt32 1 \<notin> set evs"
proof (cases a)
  case (CallStopMS pc ans)
  with assms(2) show ?thesis by (simp add: StopMS_no_increment)
next
  case CallStopMSRequest
  with assms(1) show ?thesis by simp
next
  case (TimerFires ans)
  show ?thesis
  proof (cases "timers w = 0")
    case True
    with TimerFires assms(2) show ?thesis by auto
  next
    case False
    with TimerFires assms(2)
    have "StopMSRequest_func cfg ans (w\<lparr>timers := timers w - 1\<rparr>) = Some (err, w')" by simp
    from StopMSRequest_func_no_increment [OF this] show ?thesis by simp
  qed
next
  case (WatchdogRuns ans)
  show ?thesis
  proof (cases "watchdogs w = 0")
    case True
    with WatchdogRuns assms(2) show ?thesis by auto
  next
    case False
    with WatchdogRuns assms(2)
    have "w' = killMSifOnlineAfterTimeout cfg ans (w\<lparr>watchdogs := watchdogs w - 1\<rparr>)" by simp
    with killMS_no_increment [of cfg ans "w\<lparr>watchdogs := watchdogs w - 1\<rparr>"]
    show ?thesis by simp
  qed
next
  case Tick
  with assms(2) show ?thesis by auto
qed

lemma core_run_no_increment:
  "\<forall>a\<in>set acts. a \<noteq> CallStopMSRequest \<Longrightarrow> core_run cfg acts w = Some (errs, w') \<Longrightarrow>
   \<exists>evs. trace w' = trace w @ evs \<and> AtomicAddInt32 1 \<notin> set evs"
proof (induction acts arbitrary: w errs)
  case Nil
  then show ?case by simp
next
  case (Cons a acts)
  from Cons.prems(2) obtain err w1 errs1 where
    s: "core_step cfg a w = Some (err, w1)" and r: "core_run cfg acts w1 = Some (errs1, w')"
    by (auto split: option.splits)
  from Cons.prems(1) have "a \<noteq> CallStopMSRequest" by simp
  from core_step_no_increment [OF this s] obtain evs1 where
    1: "trace w1 = trace w @ evs1" "AtomicAddInt32 1 \<notin> set evs1" by blast
  from Cons.IH [OF _ r] Cons.prems(1) obtain evs2 where
    2: "trace w' = trace w1 @ evs2" "AtomicAddInt32 1 \<notin> set evs2" by auto
  from 1 2 have "trace w' = trace w @ (evs1 @ evs2)" "AtomicAddInt32 1 \<notin> set (evs1 @ evs2)"
    by simp_all
  then show ?case by blast
qed

section \<open>StopMS(true): the order of the checks\<close>

text \<open>
  Claim C1.  \<^verbatim>\<open>StopMS(true)\<close>, once the wait has ended with \<open>Status\<close> online (after \<open>k\<close>
  seconds of \<open>starting\<close>, \<open>k = 0\<close> when it is online at the call): the call returns, and
  what it did is, in this order, the atomic decrement of \<open>StopMSRequests\<close>, the player count
  query with its log line, and then
  \<^item> nothing more and the error \<open>ServerNotEmptyError\<close> when the player count is positive
    (no stop command, no watchdog, no kill);
  \<^item> otherwise the atomic load of the counter, and nothing more and the error
    \<open>PendingRequestsError\<close> when the value loaded is positive;
  \<^item> otherwise the stop command (and the watchdog when the command was delivered and
    killing is allowed).
  The value loaded is the counter as it is after the decrement, at the moment of the
  load: its value at the call, less the one of this call, plus what other goroutines
  added to it in between (\<open>othersLine53\<close>).  The call itself changes the counter by its
  decrement only: it leaves it at the value it read last.
\<close>

theorem StopMS_true_order:
  assumes "\<forall>j<k. status_after j w = ''starting''" and "status_after k w = ''online''"
  shows "\<exists>w'. StopMS cfg ans True w = Some (
            (if playerCount ans > 0 then Some ServerNotEmptyError
             else if sint (StopMSRequests w - 1 + othersLine53 ans) > 0
               then Some (PendingRequestsError
                      (StopMSRequests w - 1 + othersLine53 ans + othersLine54 ans))
             else map_option StopCommandError (errExec ans)), w')
          \<and> StopMSRequests w' =
              (if playerCount ans > 0 then StopMSRequests w - 1
               else if sint (StopMSRequests w - 1 + othersLine53 ans) > 0
                 then StopMSRequests w - 1 + othersLine53 ans + othersLine54 ans
               else StopMSRequests w - 1 + othersLine53 ans)
          \<and> trace w' = trace w @ replicate k (Sleep 1) @
              [AtomicAddInt32 (- 1), CountPlayerSafe,
               Logln [LInt (playerCount ans), LStr ''online players - number got from server:'',
                      LBool (isFromServer ans)]] @
              (if playerCount ans > 0 then []
               else AtomicLoadInt32 #
                 (if sint (StopMSRequests w - 1 + othersLine53 ans) > 0 then []
                  else Execute (StopServer cfg) ''StopMS'' #
                    (if errExec ans = None \<and> StopServerAllowKill cfg > 0
                     then [GoKillMSifOnlineAfterTimeout] else [])))"
proof -
  from assms(2) have ns: "status_after k w \<noteq> ''starting''" by simp
  from assms(1) ns have "wait_starting w = Some (waited k w)" by (rule wait_starting_eq)
  then obtain err w' where r: "StopMS cfg ans True w = Some (err, w')"
    by (simp add: StopMS_def) (metis surj_pair)
  from assms(1) ns r show ?thesis
  proof (cases rule: StopMS_cases)
    case not_online
    with assms(2) show ?thesis by simp
  next
    case not_empty
    with r show ?thesis by simp
  next
    case pending
    with r show ?thesis by simp
  next
    case stop_checked
    with r show ?thesis by simp
  next
    case stop_unchecked
    then show ?thesis by simp
  qed
qed

text \<open>
  The hypotheses of C1 met.  First a call alone: \<open>Status\<close> is \<open>starting\<close> at the call and
  \<open>online\<close> a second later, one request is pending, nobody is connected, no other goroutine
  touches the counter: the stop command is issued.  Then a call made with two requests
  pending on an online, empty server, while the callback of the other request decrements
  the counter between this call's decrement and its load (\<open>othersLine53 = - 1\<close>): this call
  loads 0 and issues the stop command, as the other callback does when it loads 0 next.
  Last the same call while a new request adds one between the load and the read of
  line 54 (\<open>othersLine54 = 1\<close>): the call loads 1 and fails, and its error text has the 2
  read at line 54.
\<close>

theorem StopMS_true_order_witness:
  "(\<exists>w'. StopMS \<lparr>StopServer = ''stop'', StopServerAllowKill = 30, TimeBeforeStoppingEmptyServer = 60\<rparr>
          \<lparr>playerCount = 0, isFromServer = True, errExec = None, errSaveAll = None, errKill = None,
             othersLine53 = 0, othersLine54 = 0\<rparr> True
          \<lparr>Status = ''starting'', StopMSRequests = 1, signal = [''online''], timers = 0,
             watchdogs = 0, trace = []\<rparr> = Some (None, w')
        \<and> StopMSRequests w' = 0
        \<and> trace w' = [Sleep 1, AtomicAddInt32 (- 1), CountPlayerSafe,
             Logln [LInt 0, LStr ''online players - number got from server:'', LBool True],
             AtomicLoadInt32, Execute ''stop'' ''StopMS'', GoKillMSifOnlineAfterTimeout])
   \<and> (\<exists>w'. StopMS \<lparr>StopServer = ''stop'', StopServerAllowKill = 30, TimeBeforeStoppingEmptyServer = 60\<rparr>
          \<lparr>playerCount = 0, isFromServer = True, errExec = None, errSaveAll = None, errKill = None,
             othersLine53 = - 1, othersLine54 = 0\<rparr> True
          \<lparr>Status = ''online'', StopMSRequests = 2, signal = [], timers = 1,
             watchdogs = 0, trace = []\<rparr> = Some (None, w')
        \<and> StopMSRequests w' = 0
        \<and> trace w' = [AtomicAddInt32 (- 1), CountPlayerSafe,
             Logln [LInt 0, LStr ''online players - number got from server:'', LBool True],
             AtomicLoadInt32, Execute ''stop'' ''StopMS'', GoKillMSifOnlineAfterTimeout])
   \<and> (\<exists>w'. StopMS \<lparr>StopServer = ''stop'', StopServerAllowKill = 30, TimeBeforeStoppingEmptyServer = 60\<rparr>
          \<lparr>playerCount = 0, isFromServer = True, errExec = None, errSaveAll = None, errKill = None,
             othersLine53 = 0, othersLine54 = 1\<rparr> True
          \<lparr>Status = ''online'', StopMSRequests = 2, signal = [], timers = 1,
             watchdogs = 0, trace = []\<rparr>
          = Some (Some ''StopMS: not enough time has passed since last player disconnected (StopMSRequests: 2)'', w')
        \<and> StopMSRequests w' = 2
        \<and> trace w' = [AtomicAddInt32 (- 1), CountPlayerSafe,
             Logln [LInt 0, LStr ''online players - number got from server:'', LBool True],
             AtomicLoadInt32])"
proof -
  let ?cfg = "\<lparr>StopServer = ''stop'', StopServerAllowKill = 30, TimeBeforeStoppingEmptyServer = 60\<rparr>"
  have p: "PendingRequestsError 2
      = ''StopMS: not enough time has passed since last player disconnected (StopMSRequests: 2)''"
    by (simp add: PendingRequestsError_def show_int_def)
  have a: "\<exists>w'. StopMS ?cfg
          \<lparr>playerCount = 0, isFromServer = True, errExec = None, errSaveAll = None, errKill = None,
             othersLine53 = 0, othersLine54 = 0\<rparr> True
          \<lparr>Status = ''starting'', StopMSRequests = 1, signal = [''online''], timers = 0,
             watchdogs = 0, trace = []\<rparr> = Some (None, w')
        \<and> StopMSRequests w' = 0
        \<and> trace w' = [Sleep 1, AtomicAddInt32 (- 1), CountPlayerSafe,
             Logln [LInt 0, LStr ''online players - number got from server:'', LBool True],
             AtomicLoadInt32, Execute ''stop'' ''StopMS'', GoKillMSifOnlineAfterTimeout]"
    using StopMS_true_order [of 1
          "\<lparr>Status = ''starting'', StopMSRequests = 1, signal = [''online''], timers = 0,
             watchdogs = 0, trace = []\<rparr>" ?cfg
          "\<lparr>playerCount = 0, isFromServer = True, errExec = None, errSaveAll = None, errKill = None,
             othersLine53 = 0, othersLine54 = 0\<rparr>"]
    by (simp add: status_after_def tick_def)
  have b: "\<exists>w'. StopMS ?cfg
          \<lparr>playerCount = 0, isFromServer = True, errExec = None, errSaveAll = None, errKill = None,
             othersLine53 = - 1, othersLine54 = 0\<rparr> True
          \<lparr>Status = ''online'', StopMSRequests = 2, signal = [], timers = 1,
             watchdogs = 0, trace = []\<rparr> = Some (None, w')
        \<and> StopMSRequests w' = 0
        \<and> trace w' = [AtomicAddInt32 (- 1), CountPlayerSafe,
             Logln [LInt 0, LStr ''online players - number got from server:'', LBool True],
             AtomicLoadInt32, Execute ''stop'' ''StopMS'', GoKillMSifOnlineAfterTimeout]"
    using StopMS_true_order [of 0
          "\<lparr>Status = ''online'', StopMSRequests = 2, signal = [], timers = 1,
             watchdogs = 0, trace = []\<rparr>" ?cfg
          "\<lparr>playerCount = 0, isFromServer = True, errExec = None, errSaveAll = None, errKill = None,
             othersLine53 = - 1, othersLine54 = 0\<rparr>"]
    by simp
  have c: "\<exists>w'. StopMS ?cfg
          \<lparr>playerCount = 0, isFromServer = True, errExec = None, errSaveAll = None, errKill = None,
             othersLine53 = 0, othersLine54 = 1\<rparr> True
          \<lparr>Status = ''online'', StopMSRequests = 2, signal = [], timers = 1,
             watchdogs = 0, trace = []\<rparr>
          = Some (Some ''StopMS: not enough time has passed since last player disconnected (StopMSRequests: 2)'', w')
        \<and> StopMSRequests w' = 2
        \<and> trace w' = [AtomicAddInt32 (- 1), CountPlayerSafe,
             Logln [LInt 0, LStr ''online players - number got from server:'', LBool True],
             AtomicLoadInt32]"
    using StopMS_true_order [of 0
          "\<lparr>Status = ''online'', StopMSRequests = 2, signal = [], timers = 1,
             watchdogs = 0, trace = []\<rparr>" ?cfg
          "\<lparr>playerCount = 0, isFromServer = True, errExec = None, errSaveAll = None, errKill = None,
             othersLine53 = 0, othersLine54 = 1\<rparr>"] p
    by simp
  from a b c show ?thesis by blast
qed

section \<open>The counter after a burst of requests\<close>

text \<open>
  Claim C2 is what the code takes the counter for (lines 40-41 and 51: the requests
  still running), and the code does not keep it: a callback that finds \<open>Status\<close> not
  \<open>online\<close> returns at line 35, before the decrement of line 42 that every other return
  of \<^verbatim>\<open>StopMS(true)\<close> comes after.  The code at such an input: one request is filed on an online server (idle
  timeout one second), the server goes offline during that second, the timer fires and
  the counter stays at 1.  The server is started again and is empty; each of the next
  two requests runs its timer alone, finds the counter at 1 after its own decrement and
  fails with \<open>PendingRequestsError\<close>: the stop command is never issued.
\<close>

theorem requests_do_not_drain_when_not_online:
  "core_run \<lparr>StopServer = ''stop'', StopServerAllowKill = 30, TimeBeforeStoppingEmptyServer = 1\<rparr>
      [CallStopMSRequest, Tick,
       TimerFires \<lparr>playerCount = 0, isFromServer = False, errExec = None, errSaveAll = None,
         errKill = None, othersLine53 = 0, othersLine54 = 0\<rparr>]
      \<lparr>Status = ''online'', StopMSRequests = 0, signal = [''offline'', ''online''], timers = 0,
         watchdogs = 0, trace = []\<rparr>
   = Some ([None, None, Some ''StopMS: server is not online''],
      \<lparr>Status = ''offline'', StopMSRequests = 1, signal = [''online''], timers = 0, watchdogs = 0,
         trace = [AtomicAddInt32 1, AfterFunc 1000000000]\<rparr>)
   \<and> (1 :: 32 word) \<noteq> 0
   \<and> core_run \<lparr>StopServer = ''stop'', StopServerAllowKill = 30, TimeBeforeStoppingEmptyServer = 1\<rparr>
      [Tick, CallStopMSRequest,
       TimerFires \<lparr>playerCount = 0, isFromServer = False, errExec = None, errSaveAll = None,
         errKill = None, othersLine53 = 0, othersLine54 = 0\<rparr>,
       CallStopMSRequest,
       TimerFires \<lparr>playerCount = 0, isFromServer = False, errExec = None, errSaveAll = None,
         errKill = None, othersLine53 = 0, othersLine54 = 0\<rparr>]
      \<lparr>Status = ''offline'', StopMSRequests = 1, signal = [''online''], timers = 0, watchdogs = 0,
         trace = [AtomicAddInt32 1, AfterFunc 1000000000]\<rparr>
   = Some ([None, None,
        Some ''StopMS: not enough time has passed since last player disconnected (StopMSRequests: 1)'',
        None,
        Some ''StopMS: not enough time has passed since last player disconnected (StopMSRequests: 1)''],
      \<lparr>Status = ''online'', StopMSRequests = 1, signal = [], timers = 0, watchdogs = 0,
         trace = [AtomicAddInt32 1, AfterFunc 1000000000,
           AtomicAddInt32 1, AfterFunc 1000000000,
           AtomicAddInt32 (- 1), CountPlayerSafe,
           Logln [LInt 0, LStr ''online players - number got from server:'', LBool False],
           AtomicLoadInt32,
           Logln [LStr ''StopMSRequest:'',
             LErr ''StopMS: not enough time has passed since last player disconnected (StopMSRequests: 1)''],
           AtomicAddInt32 1, AfterFunc 1000000000,
           AtomicAddInt32 (- 1), CountPlayerSafe,
           Logln [LInt 0, LStr ''online players - number got from server:'', LBool False],
           AtomicLoadInt32,
           Logln [LStr ''StopMSRequest:'',
             LErr ''StopMS: not enough time has passed since last player disconnected (StopMSRequests: 1)'']]\<rparr>)"
  by (simp add: StopMSRequest_def Duration_Seconds_def StopMSRequest_func_def StopMS_def
        atomic_AddInt32_def others_add_def emit_def tick_def NotOnlineError_def
        PendingRequestsError_def show_int_def)

section \<open>The watchdog\<close>

text \<open>
  Claim C3.  \<^verbatim>\<open>killMSifOnlineAfterTimeout\<close> polls \<open>Status\<close> once a second,
  \<^verbatim>\<open>StopServerAllowKill\<close> times, starting at once.
  \<^item> When a poll reads \<open>offline\<close> (the first one to do so being poll \<open>i\<close>), the function
    returns having done nothing but sleep \<open>i\<close> times: no \<^verbatim>\<open>save-all\<close>, no kill.
  \<^item> When no poll reads \<open>offline\<close>, it logs, issues \<^verbatim>\<open>save-all\<close>, sleeps ten seconds, logs,
    and kills the process.  What \<^verbatim>\<open>Execute\<close> answers to \<^verbatim>\<open>save-all\<close> changes nothing (the
    answer \<open>errSaveAll\<close> does not occur in the result); an error of \<^verbatim>\<open>Kill\<close> adds one log
    line and nothing else.
  \<^item> Whatever \<^verbatim>\<open>Execute\<close> and \<^verbatim>\<open>Kill\<close> answer (\<open>ans\<close> or \<open>ans'\<close>), the world left is the same but
    for the trace, and the traces are the same but for log lines: a delivery failure
    shows in the log at most.
  \<^item> The function has no result value: it always returns (it is a total function of the
    world), and the step of the core that runs it produces no error.
\<close>

theorem watchdog_behaviour:
  "(i < nat (StopServerAllowKill cfg) \<and> (\<forall>j<i. status_after j w \<noteq> ''offline'')
      \<and> status_after i w = ''offline'' \<longrightarrow>
        killMSifOnlineAfterTimeout cfg ans w = waited i w)
   \<and> ((\<forall>j<nat (StopServerAllowKill cfg). status_after j w \<noteq> ''offline'') \<longrightarrow>
        trace (killMSifOnlineAfterTimeout cfg ans w) =
          trace w @ replicate (nat (StopServerAllowKill cfg)) (Sleep 1) @
            [Logln [LStr ''saving word before killing the minecraft server process''],
             Execute ''save-all'' ''killMSifOnlineAfterTimeout'',
             Sleep 10,
             Logln [LStr ''send kill signal to minecraft server process since it won't stop normally''],
             ProcessKill] @
            (case errKill ans of None \<Rightarrow> []
             | Some e \<Rightarrow> [Logln [LStr ''killMSifOnlineAfterTimeout: %v'', LErr e]]))
   \<and> killMSifOnlineAfterTimeout cfg ans w
        = (killMSifOnlineAfterTimeout cfg ans' w)\<lparr>trace := trace (killMSifOnlineAfterTimeout cfg ans w)\<rparr>
   \<and> filter (\<lambda>e. \<not> is_Logln e) (trace (killMSifOnlineAfterTimeout cfg ans w))
        = filter (\<lambda>e. \<not> is_Logln e) (trace (killMSifOnlineAfterTimeout cfg ans' w))
   \<and> (\<exists>w'. core_step cfg (WatchdogRuns ans) w = Some (None, w'))"
proof (intro conjI impI)
  assume "i < nat (StopServerAllowKill cfg) \<and> (\<forall>j<i. status_after j w \<noteq> ''offline'')
      \<and> status_after i w = ''offline''"
  then show "killMSifOnlineAfterTimeout cfg ans w = waited i w"
    by (simp add: killMS_offline)
next
  assume "\<forall>j<nat (StopServerAllowKill cfg). status_after j w \<noteq> ''offline''"
  then show "trace (killMSifOnlineAfterTimeout cfg ans w) =
          trace w @ replicate (nat (StopServerAllowKill cfg)) (Sleep 1) @
            [Logln [LStr ''saving word before killing the minecraft server process''],
             Execute ''save-all'' ''killMSifOnlineAfterTimeout'',
             Sleep 10,
             Logln [LStr ''send kill signal to minecraft server process since it won't stop normally''],
             ProcessKill] @
            (case errKill ans of None \<Rightarrow> []
             | Some e \<Rightarrow> [Logln [LStr ''killMSifOnlineAfterTimeout: %v'', LErr e]])"
    by (rule killMS_expired_trace)
next
  show "killMSifOnlineAfterTimeout cfg ans w
        = (killMSifOnlineAfterTimeout cfg ans' w)\<lparr>trace := trace (killMSifOnlineAfterTimeout cfg ans w)\<rparr>"
    by (rule killMS_answers)
next
  show "filter (\<lambda>e. \<not> is_Logln e) (trace (killMSifOnlineAfterTimeout cfg ans w))
        = filter (\<lambda>e. \<not> is_Logln e) (trace (killMSifOnlineAfterTimeout cfg ans' w))"
    by (rule killMS_answers)
next
  show "\<exists>w'. core_step cfg (WatchdogRuns ans) w = Some (None, w')" by simp
qed

text \<open>
  The hypotheses of C3 met, with a grace period of two seconds: a server that is offline
  at the second poll, and one that is still \<open>stopping\<close> when the grace period ends, where
  both \<^verbatim>\<open>save-all\<close> and the kill fail.
\<close>

theorem watchdog_behaviour_witness:
  "killMSifOnlineAfterTimeout
      \<lparr>StopServer = ''stop'', StopServerAllowKill = 2, TimeBeforeStoppingEmptyServer = 60\<rparr>
      \<lparr>playerCount = 0, isFromServer = True, errExec = None, errSaveAll = Some ''terminal not active'',
         errKill = Some ''os: process already finished'',
         othersLine53 = 0, othersLine54 = 0\<rparr>
      \<lparr>Status = ''online'', StopMSRequests = 0, signal = [''offline''], timers = 0, watchdogs = 0,
         trace = []\<rparr>
    = \<lparr>Status = ''offline'', StopMSRequests = 0, signal = [], timers = 0, watchdogs = 0,
         trace = [Sleep 1]\<rparr>
   \<and> trace (killMSifOnlineAfterTimeout
      \<lparr>StopServer = ''stop'', StopServerAllowKill = 2, TimeBeforeStoppingEmptyServer = 60\<rparr>
      \<lparr>playerCount = 0, isFromServer = True, errExec = None, errSaveAll = Some ''terminal not active'',
         errKill = Some ''os: process already finished'',
         othersLine53 = 0, othersLine54 = 0\<rparr>
      \<lparr>Status = ''online'', StopMSRequests = 0, signal = [''stopping''], timers = 0, watchdogs = 0,
         trace = []\<rparr>)
    = [Sleep 1, Sleep 1,
       Logln [LStr ''saving word before killing the minecraft server process''],
       Execute ''save-all'' ''killMSifOnlineAfterTimeout'',
       Sleep 10,
       Logln [LStr ''send kill signal to minecraft server process since it won't stop normally''],
       ProcessKill,
       Logln [LStr ''killMSifOnlineAfterTimeout: %v'', LErr ''os: process already finished'']]"
proof -
  let ?cfg = "\<lparr>StopServer = ''stop'', StopServerAllowKill = 2, TimeBeforeStoppingEmptyServer = 60\<rparr>"
  let ?ans = "\<lparr>playerCount = 0, isFromServer = True, errExec = None,
         errSaveAll = Some ''terminal not active'', errKill = Some ''os: process already finished'',
         othersLine53 = 0, othersLine54 = 0\<rparr>"
  let ?wa = "\<lparr>Status = ''online'', StopMSRequests = 0, signal = [''offline''], timers = 0,
         watchdogs = 0, trace = []\<rparr>"
  let ?wb = "\<lparr>Status = ''online'', StopMSRequests = 0, signal = [''stopping''], timers = 0,
         watchdogs = 0, trace = []\<rparr>"
  have a: "1 < nat (StopServerAllowKill ?cfg) \<and> (\<forall>j<1. status_after j ?wa \<noteq> ''offline'')
      \<and> status_after 1 ?wa = ''offline''"
    by (simp add: status_after_def tick_def)
  have b: "\<forall>j<nat (StopServerAllowKill ?cfg). status_after j ?wb \<noteq> ''offline''"
    by (simp add: numeral_2_eq_2 less_Suc_eq all_conj_distrib imp_disjL status_after_def tick_def)
  have c: "waited 1 ?wa = \<lparr>Status = ''offline'', StopMSRequests = 0, signal = [], timers = 0,
         watchdogs = 0, trace = [Sleep 1]\<rparr>"
    by (simp add: waited_def status_after_def tick_def)
  from a b c watchdog_behaviour [of 1 ?cfg ?wa ?ans] watchdog_behaviour [of _ ?cfg ?wb ?ans]
  show ?thesis by (simp add: numeral_2_eq_2)
qed

section \<open>No grace period, no kill\<close>

text \<open>
  Claim C4.  With \<^verbatim>\<open>StopServerAllowKill = 0\<close>:
  \<^item> no \<^verbatim>\<open>StopMS\<close> call starts a watchdog;
  \<^item> in every run of the core that begins with no watchdog started (calls of \<^verbatim>\<open>StopMS\<close> and
    \<^verbatim>\<open>StopMSRequest\<close>, timers firing, seconds passing, in any order), no watchdog is ever
    started and the process is never killed.
\<close>

theorem no_kill_without_grace_period:
  assumes "StopServerAllowKill cfg = 0"
  shows "(StopMS cfg ans playersCheck v = Some (err, v') \<longrightarrow>
            watchdogs v' = watchdogs v
            \<and> (\<exists>evs. trace v' = trace v @ evs \<and> GoKillMSifOnlineAfterTimeout \<notin> set evs))
       \<and> (watchdogs w = 0 \<and> core_run cfg acts w = Some (errs, w') \<longrightarrow>
            watchdogs w' = 0
            \<and> (\<exists>evs. trace w' = trace w @ evs \<and> GoKillMSifOnlineAfterTimeout \<notin> set evs
                  \<and> ProcessKill \<notin> set evs))"
proof -
  from assms have le: "StopServerAllowKill cfg \<le> 0" by simp
  show ?thesis
    using StopMS_no_watchdog [OF le, of ans playersCheck v err v']
      core_run_no_kill [OF le, of w acts errs w']
    by blast
qed

text \<open>
  The hypotheses of C4 met: a direct \<^verbatim>\<open>StopMS(false)\<close> on an online server, and a run made of
  a request, its timer, an attempt to run a watchdog and a direct \<^verbatim>\<open>StopMS(false)\<close>; the
  stop command is issued twice and nothing else happens to the process.
\<close>

theorem no_kill_without_grace_period_witness:
  "StopMS \<lparr>StopServer = ''stop'', StopServerAllowKill = 0, TimeBeforeStoppingEmptyServer = 60\<rparr>
      \<lparr>playerCount = 0, isFromServer = True, errExec = None, errSaveAll = None, errKill = None,
         othersLine53 = 0, othersLine54 = 0\<rparr>
      False
      \<lparr>Status = ''online'', StopMSRequests = 0, signal = [], timers = 0, watchdogs = 0, trace = []\<rparr>
   = Some (None,
      \<lparr>Status = ''online'', StopMSRequests = 0, signal = [], timers = 0, watchdogs = 0,
         trace = [Execute ''stop'' ''StopMS'']\<rparr>)
   \<and> core_run \<lparr>StopServer = ''stop'', StopServerAllowKill = 0, TimeBeforeStoppingEmptyServer = 60\<rparr>
      [CallStopMSRequest,
       TimerFires \<lparr>playerCount = 0, isFromServer = True, errExec = None, errSaveAll = None,
         errKill = None,
         othersLine53 = 0, othersLine54 = 0\<rparr>,
       WatchdogRuns \<lparr>playerCount = 0, isFromServer = True, errExec = None, errSaveAll = None,
         errKill = None,
         othersLine53 = 0, othersLine54 = 0\<rparr>,
       CallStopMS False \<lparr>playerCount = 0, isFromServer = True, errExec = None, errSaveAll = None,
         errKill = None,
         othersLine53 = 0, othersLine54 = 0\<rparr>]
      \<lparr>Status = ''online'', StopMSRequests = 0, signal = [], timers = 0, watchdogs = 0, trace = []\<rparr>
   = Some ([None, None, None, None],
      \<lparr>Status = ''online'', StopMSRequests = 0, signal = [], timers = 0, watchdogs = 0,
         trace = [AtomicAddInt32 1, AfterFunc 60000000000, AtomicAddInt32 (- 1), CountPlayerSafe,
           Logln [LInt 0, LStr ''online players - number got from server:'', LBool True],
           AtomicLoadInt32, Execute ''stop'' ''StopMS'', Execute ''stop'' ''StopMS'']\<rparr>)"
proof -
  let ?cfg = "\<lparr>StopServer = ''stop'', StopServerAllowKill = 0, TimeBeforeStoppingEmptyServer = 60\<rparr>"
  let ?ans = "\<lparr>playerCount = 0, isFromServer = True, errExec = None, errSaveAll = None,
         errKill = None,
         othersLine53 = 0, othersLine54 = 0\<rparr>"
  let ?w = "\<lparr>Status = ''online'', StopMSRequests = 0, signal = [], timers = 0, watchdogs = 0, trace = []\<rparr>"
  let ?w1 = "\<lparr>Status = ''online'', StopMSRequests = 0, signal = [], timers = 0, watchdogs = 0,
         trace = [Execute ''stop'' ''StopMS'']\<rparr>"
  let ?w' = "\<lparr>Status = ''online'', StopMSRequests = 0, signal = [], timers = 0, watchdogs = 0,
         trace = [AtomicAddInt32 1, AfterFunc 60000000000, AtomicAddInt32 (- 1), CountPlayerSafe,
           Logln [LInt 0, LStr ''online players - number got from server:'', LBool True],
           AtomicLoadInt32, Execute ''stop'' ''StopMS'', Execute ''stop'' ''StopMS'']\<rparr>"
  have s: "StopMS ?cfg ?ans False ?w = Some (None, ?w1)"
    by (simp add: StopMS_def execute_stop_def emit_def)
  have r: "core_run ?cfg [CallStopMSRequest, TimerFires ?ans, WatchdogRuns ?ans, CallStopMS False ?ans] ?w
      = Some ([None, None, None, None], ?w')"
    by (simp add: StopMSRequest_def Duration_Seconds_def StopMSRequest_func_def StopMS_def execute_stop_def
          atomic_AddInt32_def others_add_def emit_def)
  have "StopServerAllowKill ?cfg = 0" by simp
  from no_kill_without_grace_period [OF this, of ?ans False ?w None ?w1 ?w
      "[CallStopMSRequest, TimerFires ?ans, WatchdogRuns ?ans, CallStopMS False ?ans]"
      "[None, None, None, None]" ?w'] s r
  have "watchdogs ?w1 = watchdogs ?w \<and> watchdogs ?w' = 0
      \<and> (\<exists>evs. trace ?w' = trace ?w @ evs \<and> GoKillMSifOnlineAfterTimeout \<notin> set evs
            \<and> ProcessKill \<notin> set evs)"
    by simp
  with s r show ?thesis by simp
qed

section \<open>StopMS: the wait and the gate\<close>

text \<open>
  Claim C5.  Every \<^verbatim>\<open>StopMS\<close> call first waits while \<open>Status\<close> is \<open>starting\<close>:
  \<^item> while \<open>Status\<close> stays \<open>starting\<close> for ever, the call never returns;
  \<^item> when \<open>Status\<close> is \<open>starting\<close> for \<open>k\<close> seconds and then something else, the call returns
    and what it did begins with \<open>k\<close> sleeps of one second: the stop command, if any, comes
    after the wait;
  \<^item> when the wait ends with \<open>Status\<close> not \<open>online\<close>, the call returns \<open>NotOnlineError\<close> and
    did nothing but sleep: no stop command, and the counter is as it was
    (\<open>waited k w\<close> differs from \<open>w\<close> in \<open>Status\<close>, \<open>signal\<close> and the \<open>k\<close> sleeps of the trace only).
\<close>

theorem StopMS_waits_and_gates:
  "((\<forall>j. status_after j w = ''starting'') \<longrightarrow> StopMS cfg ans playersCheck w = None)
   \<and> ((\<forall>j<k. status_after j w = ''starting'') \<and> status_after k w \<noteq> ''starting'' \<longrightarrow>
        (\<exists>err w' rest. StopMS cfg ans playersCheck w = Some (err, w')
           \<and> trace w' = trace w @ replicate k (Sleep 1) @ rest))
   \<and> ((\<forall>j<k. status_after j w = ''starting'') \<and> status_after k w \<noteq> ''starting''
        \<and> status_after k w \<noteq> ''online'' \<longrightarrow>
        StopMS cfg ans playersCheck w = Some (Some NotOnlineError, waited k w))"
proof (intro conjI impI)
  assume "\<forall>j. status_after j w = ''starting''"
  then show "StopMS cfg ans playersCheck w = None" by (rule StopMS_forever)
next
  assume a: "(\<forall>j<k. status_after j w = ''starting'') \<and> status_after k w \<noteq> ''starting''
        \<and> status_after k w \<noteq> ''online''"
  then show "StopMS cfg ans playersCheck w = Some (Some NotOnlineError, waited k w)"
    by (simp add: StopMS_not_online)
next
  assume a: "(\<forall>j<k. status_after j w = ''starting'') \<and> status_after k w \<noteq> ''starting''"
  then have ws: "wait_starting w = Some (waited k w)" by (simp add: wait_starting_eq)
  obtain err w' where r: "StopMS cfg ans playersCheck w = Some (err, w')"
    using ws by (simp add: StopMS_def) (metis surj_pair)
  have "\<exists>rest. trace w' = trace (waited k w) @ rest"
    using r ws
    by (auto simp: StopMS_def Let_def execute_stop_def split: if_splits option.splits)
  with r show "\<exists>err w' rest. StopMS cfg ans playersCheck w = Some (err, w')
           \<and> trace w' = trace w @ replicate k (Sleep 1) @ rest"
    by auto
qed

text \<open>
  The hypotheses of C5 met: a server that stays \<open>starting\<close>, and one that is \<open>starting\<close> for
  two seconds and then \<open>stopping\<close>.
\<close>

theorem StopMS_waits_and_gates_witness:
  "StopMS \<lparr>StopServer = ''stop'', StopServerAllowKill = 30, TimeBeforeStoppingEmptyServer = 60\<rparr>
      \<lparr>playerCount = 0, isFromServer = True, errExec = None, errSaveAll = None, errKill = None,
         othersLine53 = 0, othersLine54 = 0\<rparr> False
      \<lparr>Status = ''starting'', StopMSRequests = 1, signal = [], timers = 1, watchdogs = 0,
         trace = []\<rparr> = None
   \<and> StopMS \<lparr>StopServer = ''stop'', StopServerAllowKill = 30, TimeBeforeStoppingEmptyServer = 60\<rparr>
      \<lparr>playerCount = 0, isFromServer = True, errExec = None, errSaveAll = None, errKill = None,
         othersLine53 = 0, othersLine54 = 0\<rparr> True
      \<lparr>Status = ''starting'', StopMSRequests = 1, signal = [''starting'', ''stopping''],
         timers = 1, watchdogs = 0, trace = []\<rparr>
     = Some (Some ''StopMS: server is not online'',
         \<lparr>Status = ''stopping'', StopMSRequests = 1, signal = [], timers = 1, watchdogs = 0,
            trace = [Sleep 1, Sleep 1]\<rparr>)"
proof -
  let ?cfg = "\<lparr>StopServer = ''stop'', StopServerAllowKill = 30, TimeBeforeStoppingEmptyServer = 60\<rparr>"
  let ?ans = "\<lparr>playerCount = 0, isFromServer = True, errExec = None, errSaveAll = None, errKill = None,
         othersLine53 = 0, othersLine54 = 0\<rparr>"
  let ?wA = "\<lparr>Status = ''starting'', StopMSRequests = 1, signal = [], timers = 1, watchdogs = 0,
         trace = []\<rparr>"
  let ?wB = "\<lparr>Status = ''starting'', StopMSRequests = 1, signal = [''starting'', ''stopping''],
         timers = 1, watchdogs = 0, trace = []\<rparr>"
  have a: "\<forall>j. status_after j ?wA = ''starting''"
    by (simp add: status_after_no_signal)
  have b: "(\<forall>j<2. status_after j ?wB = ''starting'') \<and> status_after 2 ?wB \<noteq> ''starting''
        \<and> status_after 2 ?wB \<noteq> ''online''"
    by (simp add: numeral_2_eq_2 less_Suc_eq all_conj_distrib imp_disjL status_after_def tick_def)
  have c: "waited 2 ?wB = \<lparr>Status = ''stopping'', StopMSRequests = 1, signal = [], timers = 1,
            watchdogs = 0, trace = [Sleep 1, Sleep 1]\<rparr>"
    by (simp add: waited_def status_after_def tick_def numeral_2_eq_2)
  from a b c StopMS_waits_and_gates [of ?wA ?cfg ?ans False]
    StopMS_waits_and_gates [of ?wB ?cfg ?ans True 2]
  show ?thesis by (simp add: NotOnlineError_def)
qed

section \<open>StopMS: a stop command that cannot be delivered\<close>

text \<open>
  Claim C6.  When a \<^verbatim>\<open>StopMS\<close> call has issued the stop command and \<^verbatim>\<open>Execute\<close> answered
  with an error \<open>e\<close>, the call returns \<open>StopCommandError\<close> (the text wrapping \<open>e\<close>), starts no
  watchdog, and \<open>Status\<close> is what it was when the wait ended (\<open>online\<close>): \<^verbatim>\<open>StopMS\<close> does
  not write it.
\<close>

theorem StopMS_stop_command_fails:
  assumes "\<forall>j<k. status_after j w = ''starting''" and "status_after k w \<noteq> ''starting''"
    and "StopMS cfg ans playersCheck w = Some (err, w')"
    and "trace w' = trace w @ evs" and "Execute (StopServer cfg) ''StopMS'' \<in> set evs"
    and "errExec ans = Some e"
  shows "err = Some (StopCommandError e)
       \<and> GoKillMSifOnlineAfterTimeout \<notin> set evs \<and> watchdogs w' = watchdogs w
       \<and> Status w' = status_after k w \<and> Status w' = ''online''"
  using assms(1-3)
proof (cases rule: StopMS_cases)
  case not_online
  with assms(4,5) show ?thesis by auto
next
  case not_empty
  with assms(4,5) show ?thesis by auto
next
  case pending
  with assms(4,5) show ?thesis by auto
next
  case stop_checked
  with assms(4,6) show ?thesis by auto
next
  case stop_unchecked
  with assms(4,6) show ?thesis by auto
qed

text \<open>
  The hypotheses of C6 met: \<^verbatim>\<open>StopMS(false)\<close> on an online server whose terminal refuses
  the command.
\<close>

theorem StopMS_stop_command_fails_witness:
  "StopMS \<lparr>StopServer = ''stop'', StopServerAllowKill = 30, TimeBeforeStoppingEmptyServer = 60\<rparr>
      \<lparr>playerCount = 0, isFromServer = True, errExec = Some ''terminal not active'',
         errSaveAll = None, errKill = None,
         othersLine53 = 0, othersLine54 = 0\<rparr> False
      \<lparr>Status = ''online'', StopMSRequests = 0, signal = [], timers = 0, watchdogs = 0, trace = []\<rparr>
   = Some (Some ''StopMS: error executing minecraft server stop command: terminal not active'',
      \<lparr>Status = ''online'', StopMSRequests = 0, signal = [], timers = 0, watchdogs = 0,
         trace = [Execute ''stop'' ''StopMS'']\<rparr>)
   \<and> StopCommandError ''terminal not active''
       = ''StopMS: error executing minecraft server stop command: terminal not active''"
proof -
  let ?cfg = "\<lparr>StopServer = ''stop'', StopServerAllowKill = 30, TimeBeforeStoppingEmptyServer = 60\<rparr>"
  let ?ans = "\<lparr>playerCount = 0, isFromServer = True, errExec = Some ''terminal not active'',
         errSaveAll = None, errKill = None,
         othersLine53 = 0, othersLine54 = 0\<rparr>"
  let ?w = "\<lparr>Status = ''online'', StopMSRequests = 0, signal = [], timers = 0, watchdogs = 0, trace = []\<rparr>"
  let ?w' = "\<lparr>Status = ''online'', StopMSRequests = 0, signal = [], timers = 0, watchdogs = 0,
         trace = [Execute ''stop'' ''StopMS'']\<rparr>"
  have r: "StopMS ?cfg ?ans False ?w = Some (Some (StopCommandError ''terminal not active''), ?w')"
    by (subst StopMS_def, subst wait_starting.simps) (simp add: execute_stop_def emit_def)
  have "Some (StopCommandError ''terminal not active'') = Some (StopCommandError ''terminal not active'')
       \<and> GoKillMSifOnlineAfterTimeout \<notin> set [Execute ''stop'' ''StopMS''] \<and> watchdogs ?w' = watchdogs ?w
       \<and> Status ?w' = status_after 0 ?w \<and> Status ?w' = ''online''"
    by (rule StopMS_stop_command_fails [where k = 0 and w = ?w and cfg = ?cfg and ans = ?ans
          and playersCheck = False and e = "''terminal not active''"]) (simp_all add: r)
  with r show ?thesis by (simp add: StopCommandError_def)
qed

section \<open>A failed attempt uses up its request\<close>

text \<open>
  Claim C7.  When \<^verbatim>\<open>StopMS(true)\<close> returns \<open>ServerNotEmptyError\<close>, the counter is one below
  its value at the call and nothing after the decrement adds to it again: all the call
  did is sleep, decrement, count the players and log.  It schedules no callback.  When
  the call was the callback of a timer, that timer is used up with it, and in no later
  run of the core without a new \<^verbatim>\<open>StopMSRequest\<close> does the number of scheduled callbacks
  grow back, and no step of the run adds one to the counter: no deferred attempt stands
  for the consumed unit.
\<close>

theorem ServerNotEmpty_consumes_request:
  "(StopMS cfg ans True w = Some (Some ServerNotEmptyError, w1) \<longrightarrow>
      StopMSRequests w1 = StopMSRequests w - 1 \<and> timers w1 = timers w
      \<and> (\<exists>k. trace w1 = trace w @ replicate k (Sleep 1) @
            [AtomicAddInt32 (- 1), CountPlayerSafe,
             Logln [LInt (playerCount ans), LStr ''online players - number got from server:'',
                    LBool (isFromServer ans)]]))
   \<and> (0 < timers w \<and> core_step cfg (TimerFires ans) w = Some (Some ServerNotEmptyError, w2) \<longrightarrow>
      StopMSRequests w2 = StopMSRequests w - 1 \<and> timers w2 = timers w - 1
      \<and> (\<forall>acts errs w3. (\<forall>a\<in>set acts. a \<noteq> CallStopMSRequest)
            \<and> core_run cfg acts w2 = Some (errs, w3) \<longrightarrow>
              timers w3 \<le> timers w - 1
              \<and> (\<exists>evs. trace w3 = trace w2 @ evs \<and> AtomicAddInt32 1 \<notin> set evs)))"
proof -
  have A: "StopMSRequests v' = StopMSRequests v - 1 \<and> timers v' = timers v
      \<and> (\<exists>k. trace v' = trace v @ replicate k (Sleep 1) @
            [AtomicAddInt32 (- 1), CountPlayerSafe,
             Logln [LInt (playerCount ans), LStr ''online players - number got from server:'',
                    LBool (isFromServer ans)]])"
    if r: "StopMS cfg ans True v = Some (Some ServerNotEmptyError, v')" for v v'
  proof -
    from r obtain k where k: "\<forall>j<k. status_after j v = ''starting''"
      "status_after k v \<noteq> ''starting''" by (rule StopMS_returns)
    from k r show ?thesis
    proof (cases rule: StopMS_cases)
      case not_empty
      then show ?thesis by auto
    qed (auto simp: error_texts_distinct [THEN not_sym] split: option.splits)
  qed
  have B: "StopMSRequests w2 = StopMSRequests w - 1 \<and> timers w2 = timers w - 1
      \<and> (\<forall>acts errs w3. (\<forall>a\<in>set acts. a \<noteq> CallStopMSRequest)
            \<and> core_run cfg acts w2 = Some (errs, w3) \<longrightarrow>
              timers w3 \<le> timers w - 1
              \<and> (\<exists>evs. trace w3 = trace w2 @ evs \<and> AtomicAddInt32 1 \<notin> set evs))"
    if t: "0 < timers w" and r: "core_step cfg (TimerFires ans) w = Some (Some ServerNotEmptyError, w2)"
  proof -
    let ?v = "w\<lparr>timers := timers w - 1\<rparr>"
    from t r have f: "StopMSRequest_func cfg ans ?v = Some (Some ServerNotEmptyError, w2)" by simp
    then obtain v' where s: "StopMS cfg ans True ?v = Some (Some ServerNotEmptyError, v')"
      and w2: "w2 = emit (Logln [LStr ''StopMSRequest:'', LErr ServerNotEmptyError]) v'"
      by (auto simp: StopMSRequest_func_def ServerNotEmptyError_def split: option.splits if_splits)
    from A [OF s] w2 have c: "StopMSRequests w2 = StopMSRequests w - 1" "timers w2 = timers w - 1"
      by simp_all
    have "timers w3 \<le> timers w - 1
        \<and> (\<exists>evs. trace w3 = trace w2 @ evs \<and> AtomicAddInt32 1 \<notin> set evs)"
      if "\<forall>a\<in>set acts. a \<noteq> CallStopMSRequest" "core_run cfg acts w2 = Some (errs, w3)"
      for acts errs w3
      using core_run_timers [OF that] core_run_no_increment [OF that] c(2) by simp
    with c show ?thesis by blast
  qed
  from A B show ?thesis by blast
qed

text \<open>
  The hypotheses of C7 met (scenario B of the specification): one request pending, two
  players connected; first \<^verbatim>\<open>StopMS(true)\<close> called directly, then the timer firing.  After
  the timer the counter and the timers are 0, and a later firing does nothing, even with
  the server empty.
\<close>

theorem ServerNotEmpty_consumes_request_witness:
  "StopMS \<lparr>StopServer = ''stop'', StopServerAllowKill = 30, TimeBeforeStoppingEmptyServer = 60\<rparr>
      \<lparr>playerCount = 2, isFromServer = True, errExec = None, errSaveAll = None, errKill = None,
         othersLine53 = 0, othersLine54 = 0\<rparr>
      True
      \<lparr>Status = ''online'', StopMSRequests = 1, signal = [], timers = 1, watchdogs = 0, trace = []\<rparr>
   = Some (Some ''StopMS: server is not empty'',
      \<lparr>Status = ''online'', StopMSRequests = 0, signal = [], timers = 1, watchdogs = 0,
         trace = [AtomicAddInt32 (- 1), CountPlayerSafe,
           Logln [LInt 2, LStr ''online players - number got from server:'', LBool True]]\<rparr>)
   \<and> core_step \<lparr>StopServer = ''stop'', StopServerAllowKill = 30, TimeBeforeStoppingEmptyServer = 60\<rparr>
      (TimerFires \<lparr>playerCount = 2, isFromServer = True, errExec = None, errSaveAll = None,
         errKill = None,
         othersLine53 = 0, othersLine54 = 0\<rparr>)
      \<lparr>Status = ''online'', StopMSRequests = 1, signal = [], timers = 1, watchdogs = 0, trace = []\<rparr>
   = Some (Some ''StopMS: server is not empty'',
      \<lparr>Status = ''online'', StopMSRequests = 0, signal = [], timers = 0, watchdogs = 0,
         trace = [AtomicAddInt32 (- 1), CountPlayerSafe,
           Logln [LInt 2, LStr ''online players - number got from server:'', LBool True],
           Logln [LStr ''StopMSRequest:'', LErr ''StopMS: server is not empty'']]\<rparr>)
   \<and> core_run \<lparr>StopServer = ''stop'', StopServerAllowKill = 30, TimeBeforeStoppingEmptyServer = 60\<rparr>
      [Tick, TimerFires \<lparr>playerCount = 0, isFromServer = True, errExec = None, errSaveAll = None,
         errKill = None,
         othersLine53 = 0, othersLine54 = 0\<rparr>]
      \<lparr>Status = ''online'', StopMSRequests = 0, signal = [], timers = 0, watchdogs = 0,
         trace = [AtomicAddInt32 (- 1), CountPlayerSafe,
           Logln [LInt 2, LStr ''online players - number got from server:'', LBool True],
           Logln [LStr ''StopMSRequest:'', LErr ''StopMS: server is not empty'']]\<rparr>
   = Some ([None, None],
      \<lparr>Status = ''online'', StopMSRequests = 0, signal = [], timers = 0, watchdogs = 0,
         trace = [AtomicAddInt32 (- 1), CountPlayerSafe,
           Logln [LInt 2, LStr ''online players - number got from server:'', LBool True],
           Logln [LStr ''StopMSRequest:'', LErr ''StopMS: server is not empty'']]\<rparr>)"
proof -
  let ?cfg = "\<lparr>StopServer = ''stop'', StopServerAllowKill = 30, TimeBeforeStoppingEmptyServer = 60\<rparr>"
  let ?ans = "\<lparr>playerCount = 2, isFromServer = True, errExec = None, errSaveAll = None,
         errKill = None,
         othersLine53 = 0, othersLine54 = 0\<rparr>"
  let ?w = "\<lparr>Status = ''online'', StopMSRequests = 1, signal = [], timers = 1, watchdogs = 0, trace = []\<rparr>"
  let ?w1 = "\<lparr>Status = ''online'', StopMSRequests = 0, signal = [], timers = 1, watchdogs = 0,
         trace = [AtomicAddInt32 (- 1), CountPlayerSafe,
           Logln [LInt 2, LStr ''online players - number got from server:'', LBool True]]\<rparr>"
  let ?w2 = "\<lparr>Status = ''online'', StopMSRequests = 0, signal = [], timers = 0, watchdogs = 0,
         trace = [AtomicAddInt32 (- 1), CountPlayerSafe,
           Logln [LInt 2, LStr ''online players - number got from server:'', LBool True],
           Logln [LStr ''StopMSRequest:'', LErr ''StopMS: server is not empty'']]\<rparr>"
  have s: "StopMS ?cfg ?ans True ?w = Some (Some ServerNotEmptyError, ?w1)"
    by (simp add: StopMS_def atomic_AddInt32_def others_add_def emit_def)
  have e: "core_step ?cfg (TimerFires ?ans) ?w = Some (Some ServerNotEmptyError, ?w2)"
    by (simp add: StopMSRequest_func_def StopMS_def atomic_AddInt32_def others_add_def emit_def
          ServerNotEmptyError_def)
  have "0 < timers ?w" by simp
  with s e ServerNotEmpty_consumes_request [of ?cfg ?ans ?w ?w1 ?w2]
  have "StopMSRequests ?w1 = StopMSRequests ?w - 1 \<and> timers ?w1 = timers ?w
      \<and> StopMSRequests ?w2 = StopMSRequests ?w - 1 \<and> timers ?w2 = timers ?w - 1"
    by blast
  moreover have "core_run ?cfg [Tick, TimerFires \<lparr>playerCount = 0, isFromServer = True,
      errExec = None, errSaveAll = None, errKill = None,
         othersLine53 = 0, othersLine54 = 0\<rparr>] ?w2 = Some ([None, None], ?w2)"
    by (simp add: tick_def)
  ultimately show ?thesis using s e by (simp add: ServerNotEmptyError_def)
qed

section \<open>StopMSRequest and its callback\<close>




section \<open>StopMS without the players check\<close>

text \<open>
  Claim C9.  \<^verbatim>\<open>StopMS(false)\<close> with \<open>Status\<close> online: the call returns, the first thing
  it does is the stop command (no decrement, no player count query before it), the
  counter is unchanged, and neither the result nor the actions depend on the player count.
\<close>

theorem StopMS_false_skips_checks:
  assumes "Status w = ''online''"
  shows "\<exists>w'. StopMS cfg ans False w = Some (map_option StopCommandError (errExec ans), w')
          \<and> StopMSRequests w' = StopMSRequests w
          \<and> trace w' = trace w @ Execute (StopServer cfg) ''StopMS'' #
              (if errExec ans = None \<and> StopServerAllowKill cfg > 0
               then [GoKillMSifOnlineAfterTimeout] else [])"
proof -
  from assms have "\<forall>j<0. status_after j w = ''starting''" and "status_after 0 w = ''online''"
    by simp_all
  then have "StopMS cfg ans False w = Some (execute_stop cfg ans (waited 0 w))"
    by (simp add: StopMS_online [where k = 0])
  also have "execute_stop cfg ans (waited 0 w)
      = (map_option StopCommandError (errExec ans), snd (execute_stop cfg ans w))"
    by (metis execute_stop_fst prod.collapse waited_0)
  finally show ?thesis by simp
qed

text \<open>The hypothesis of C9 met: an online server with three players connected.\<close>

theorem StopMS_false_skips_checks_witness:
  "\<exists>w'. StopMS \<lparr>StopServer = ''stop'', StopServerAllowKill = 0, TimeBeforeStoppingEmptyServer = 60\<rparr>
          \<lparr>playerCount = 3, isFromServer = True, errExec = None, errSaveAll = None, errKill = None,
         othersLine53 = 0, othersLine54 = 0\<rparr> False
          \<lparr>Status = ''online'', StopMSRequests = 2, signal = [], timers = 2, watchdogs = 0,
             trace = []\<rparr> = Some (None, w')
        \<and> StopMSRequests w' = 2 \<and> trace w' = [Execute ''stop'' ''StopMS'']"
  using StopMS_false_skips_checks [of
          "\<lparr>Status = ''online'', StopMSRequests = 2, signal = [], timers = 2, watchdogs = 0,
             trace = []\<rparr>"
          "\<lparr>StopServer = ''stop'', StopServerAllowKill = 0, TimeBeforeStoppingEmptyServer = 60\<rparr>"
          "\<lparr>playerCount = 3, isFromServer = True, errExec = None, errSaveAll = None, errKill = None,
         othersLine53 = 0, othersLine54 = 0\<rparr>"]
  by simp

section \<open>The watchdog polls only before the grace period ends\<close>

text \<open>
  Claim C10.  The watchdog reads \<open>Status\<close> at its polls only, at seconds
  \<open>0, \<dots>, StopServerAllowKill - 1\<close>:
  \<^item> two worlds with the same \<open>Status\<close> at these seconds make it act the same, whatever
    \<open>Status\<close> is later;
  \<^item> when no poll reads \<open>offline\<close> and \<open>Status\<close> is \<open>offline\<close> at the end of the last poll's
    sleep, or at the end of the ten seconds after \<^verbatim>\<open>save-all\<close>, the watchdog still issues
    \<^verbatim>\<open>save-all\<close> and the kill.
\<close>

theorem watchdog_polls_only_before_expiry:
  "((\<forall>j<nat (StopServerAllowKill cfg). status_after j v = status_after j w) \<and> trace v = trace w \<longrightarrow>
      trace (killMSifOnlineAfterTimeout cfg ans v) = trace (killMSifOnlineAfterTimeout cfg ans w))
   \<and> (0 < StopServerAllowKill cfg
      \<and> (\<forall>j<nat (StopServerAllowKill cfg). status_after j w \<noteq> ''offline'')
      \<and> (status_after (nat (StopServerAllowKill cfg)) w = ''offline''
          \<or> status_after (nat (StopServerAllowKill cfg) + 10) w = ''offline'') \<longrightarrow>
        trace (killMSifOnlineAfterTimeout cfg ans w) =
          trace w @ replicate (nat (StopServerAllowKill cfg)) (Sleep 1) @
            [Logln [LStr ''saving word before killing the minecraft server process''],
             Execute ''save-all'' ''killMSifOnlineAfterTimeout'',
             Sleep 10,
             Logln [LStr ''send kill signal to minecraft server process since it won't stop normally''],
             ProcessKill] @
            (case errKill ans of None \<Rightarrow> []
             | Some e \<Rightarrow> [Logln [LStr ''killMSifOnlineAfterTimeout: %v'', LErr e]]))"
proof (intro conjI impI)
  assume h: "(\<forall>j<nat (StopServerAllowKill cfg). status_after j v = status_after j w)
      \<and> trace v = trace w"
  show "trace (killMSifOnlineAfterTimeout cfg ans v) = trace (killMSifOnlineAfterTimeout cfg ans w)"
  proof (cases cfg w rule: killMS_cases)
    case (offline i)
    with h have "i < nat (StopServerAllowKill cfg)" "\<forall>j<i. status_after j v \<noteq> ''offline''"
      "status_after i v = ''offline''" by simp_all
    then have "killMSifOnlineAfterTimeout cfg ans v = waited i v"
      by (simp add: killMS_offline)
    moreover from offline have "killMSifOnlineAfterTimeout cfg ans w = waited i w"
      by (simp add: killMS_offline)
    ultimately show ?thesis using h by simp
  next
    case expired
    with h have "\<forall>j<nat (StopServerAllowKill cfg). status_after j v \<noteq> ''offline''" by simp
    then show ?thesis using expired h by (simp add: killMS_expired_trace)
  qed
next
  assume "0 < StopServerAllowKill cfg
      \<and> (\<forall>j<nat (StopServerAllowKill cfg). status_after j w \<noteq> ''offline'')
      \<and> (status_after (nat (StopServerAllowKill cfg)) w = ''offline''
          \<or> status_after (nat (StopServerAllowKill cfg) + 10) w = ''offline'')"
  then have "\<forall>j<nat (StopServerAllowKill cfg). status_after j w \<noteq> ''offline''" by blast
  then show "trace (killMSifOnlineAfterTimeout cfg ans w) =
          trace w @ replicate (nat (StopServerAllowKill cfg)) (Sleep 1) @
            [Logln [LStr ''saving word before killing the minecraft server process''],
             Execute ''save-all'' ''killMSifOnlineAfterTimeout'',
             Sleep 10,
             Logln [LStr ''send kill signal to minecraft server process since it won't stop normally''],
             ProcessKill] @
            (case errKill ans of None \<Rightarrow> []
             | Some e \<Rightarrow> [Logln [LStr ''killMSifOnlineAfterTimeout: %v'', LErr e]])"
    by (rule killMS_expired_trace)
qed

text \<open>
  The hypotheses of C10 met, with a grace period of one second: the server goes offline
  during the sleep of the only poll, and is killed all the same, exactly as a server
  that never goes offline.
\<close>

theorem watchdog_polls_only_before_expiry_witness:
  "status_after 0 \<lparr>Status = ''stopping'', StopMSRequests = 0, signal = [''offline''], timers = 0,
         watchdogs = 0, trace = []\<rparr> = ''stopping''
   \<and> status_after 1 \<lparr>Status = ''stopping'', StopMSRequests = 0, signal = [''offline''], timers = 0,
         watchdogs = 0, trace = []\<rparr> = ''offline''
   \<and> trace (killMSifOnlineAfterTimeout
      \<lparr>StopServer = ''stop'', StopServerAllowKill = 1, TimeBeforeStoppingEmptyServer = 60\<rparr>
      \<lparr>playerCount = 0, isFromServer = True, errExec = None, errSaveAll = None, errKill = None,
         othersLine53 = 0, othersLine54 = 0\<rparr>
      \<lparr>Status = ''stopping'', StopMSRequests = 0, signal = [''offline''], timers = 0, watchdogs = 0,
         trace = []\<rparr>)
    = [Sleep 1,
       Logln [LStr ''saving word before killing the minecraft server process''],
       Execute ''save-all'' ''killMSifOnlineAfterTimeout'',
       Sleep 10,
       Logln [LStr ''send kill signal to minecraft server process since it won't stop normally''],
       ProcessKill]
   \<and> trace (killMSifOnlineAfterTimeout
      \<lparr>StopServer = ''stop'', StopServerAllowKill = 1, TimeBeforeStoppingEmptyServer = 60\<rparr>
      \<lparr>playerCount = 0, isFromServer = True, errExec = None, errSaveAll = None, errKill = None,
         othersLine53 = 0, othersLine54 = 0\<rparr>
      \<lparr>Status = ''stopping'', StopMSRequests = 0, signal = [], timers = 0, watchdogs = 0,
         trace = []\<rparr>)
    = trace (killMSifOnlineAfterTimeout
      \<lparr>StopServer = ''stop'', StopServerAllowKill = 1, TimeBeforeStoppingEmptyServer = 60\<rparr>
      \<lparr>playerCount = 0, isFromServer = True, errExec = None, errSaveAll = None, errKill = None,
         othersLine53 = 0, othersLine54 = 0\<rparr>
      \<lparr>Status = ''stopping'', StopMSRequests = 0, signal = [''offline''], timers = 0, watchdogs = 0,
         trace = []\<rparr>)"
proof -
  let ?cfg = "\<lparr>StopServer = ''stop'', StopServerAllowKill = 1, TimeBeforeStoppingEmptyServer = 60\<rparr>"
  let ?ans = "\<lparr>playerCount = 0, isFromServer = True, errExec = None, errSaveAll = None, errKill = None,
         othersLine53 = 0, othersLine54 = 0\<rparr>"
  let ?w = "\<lparr>Status = ''stopping'', StopMSRequests = 0, signal = [''offline''], timers = 0,
         watchdogs = 0, trace = []\<rparr>"
  let ?v = "\<lparr>Status = ''stopping'', StopMSRequests = 0, signal = [], timers = 0,
         watchdogs = 0, trace = []\<rparr>"
  have a: "status_after 0 ?w = ''stopping''" "status_after 1 ?w = ''offline''"
    "status_after 0 ?v = ''stopping''"
    by (simp_all add: status_after_def tick_def)
  then have b: "0 < StopServerAllowKill ?cfg
      \<and> (\<forall>j<nat (StopServerAllowKill ?cfg). status_after j ?w \<noteq> ''offline'')
      \<and> (status_after (nat (StopServerAllowKill ?cfg)) ?w = ''offline''
          \<or> status_after (nat (StopServerAllowKill ?cfg) + 10) ?w = ''offline'')"
    by simp
  from a have c: "(\<forall>j<nat (StopServerAllowKill ?cfg). status_after j ?v = status_after j ?w)
      \<and> trace ?v = trace ?w"
    by simp
  from a b c watchdog_polls_only_before_expiry [of ?cfg ?v ?w ?ans]
  show ?thesis by simp
qed

end
